theory Spec2Isabelle
  imports Complex_Main
begin

section \<open>Tensors\<close>

text \<open>
  A tensor of the framework is a shape together with its entries in row-major order
  (the notebooks only handle contiguous tensors). The entries are kept polymorphic:
  saving and loading copy them, and the training part instantiates them with numbers.
\<close>

record 'a tensor =
  shape :: "nat list"
  data :: "'a list"

definition numel :: "'a tensor \<Rightarrow> nat" where
  "numel t = prod_list (shape t)"

definition wf_tensor :: "'a tensor \<Rightarrow> bool" where
  "wf_tensor t \<longleftrightarrow> length (data t) = numel t"

text \<open>
  Parameter names of \<^verbatim>\<open>fc_model.Network\<close> as its state dict prints them:
  \<^verbatim>\<open>hidden_layers.k.weight\<close>, \<^verbatim>\<open>hidden_layers.k.bias\<close>, \<^verbatim>\<open>output.weight\<close>,
  \<^verbatim>\<open>output.bias\<close>.
\<close>

datatype pname = HiddenWeight nat | HiddenBias nat | OutputWeight | OutputBias

text \<open>
  The exceptions the notebooks can raise. \<open>LoadStateDictError missing unexpected mismatch\<close>
  is the \<^verbatim>\<open>RuntimeError: Error(s) in loading state_dict\<close> of \<^verbatim>\<open>load_state_dict\<close>, with
  the keys it lists as missing, as unexpected, and as of the wrong size (each with the
  shape in the checkpoint and the shape in the current model).
\<close>

datatype error =
    IndexError
  | ZeroDivisionError
  | KeyError
  | FileNotFoundError
  | EOFError
  | ViewError
  | LoadStateDictError "pname list" "pname list" "(pname \<times> nat list \<times> nat list) list"

subsection \<open>\<^verbatim>\<open>Tensor.view\<close> and \<^verbatim>\<open>Tensor.resize_\<close>\<close>

text \<open>
  \<^verbatim>\<open>t.view(*dims)\<close> keeps the entries and replaces the shape. One dimension may be
  \<open>-1\<close> and is then inferred from the number of entries; the call raises when a
  dimension is negative otherwise, when two dimensions are \<open>-1\<close>, when the sizes do
  not fit the number of entries, and when the inferred dimension is ambiguous because
  the other dimensions multiply to zero.
\<close>

definition infer_size :: "int list \<Rightarrow> nat \<Rightarrow> error + nat list" where
  "infer_size dims n =
     (let newsize = prod_list (map nat (filter (\<lambda>d. 0 \<le> d) dims));
          infer = (-1 \<in> set dims)
      in if list_ex (\<lambda>d. d < -1) dims then Inl ViewError
         else if 1 < length (filter (\<lambda>d. d = -1) dims) then Inl ViewError
         else if n = newsize \<or> (infer \<and> 0 < newsize \<and> n mod newsize = 0) then
           (if infer then
              (if newsize = 0 then Inl ViewError
               else Inr (map (\<lambda>d. if d = -1 then n div newsize else nat d) dims))
            else Inr (map nat dims))
         else Inl ViewError)"

definition view :: "'a tensor \<Rightarrow> int list \<Rightarrow> error + 'a tensor" where
  "view t dims =
     (case infer_size dims (numel t) of
        Inl e \<Rightarrow> Inl e
      | Inr sh \<Rightarrow> Inr \<lparr>shape = sh, data = data t\<rparr>)"

text \<open>
  \<^verbatim>\<open>images.view(images.shape[0], -1)\<close>, the flattening of the training loop.
  \<^verbatim>\<open>images.shape[0]\<close> raises on a tensor without dimensions.
\<close>

definition flatten_images :: "'a tensor \<Rightarrow> error + 'a tensor" where
  "flatten_images images =
     (case shape images of
        [] \<Rightarrow> Inl IndexError
      | n # _ \<Rightarrow> view images [int n, -1])"

text \<open>
  \<^verbatim>\<open>t.resize_(*sizes)\<close> resizes in place to exactly the sizes given: the entries that
  fit are kept in order, the storage grows when the new shape has more entries, and the
  new entries are uninitialised memory. What that memory holds is the parameter
  \<open>junk\<close> (the value at each flat index).
\<close>

definition resize_inplace :: "(nat \<Rightarrow> 'a) \<Rightarrow> 'a tensor \<Rightarrow> nat list \<Rightarrow> 'a tensor" where
  "resize_inplace junk t sizes =
     \<lparr>shape = sizes,
      data = take (prod_list sizes)
               (data t @ map junk [length (data t) ..< prod_list sizes])\<rparr>"

text \<open>\<^verbatim>\<open>images.resize_(64, 784)\<close>, the flattening of the one-off demonstration step.\<close>

definition resize_images :: "(nat \<Rightarrow> 'a) \<Rightarrow> 'a tensor \<Rightarrow> 'a tensor" where
  "resize_images junk images = resize_inplace junk images [64, 784]"

text \<open>\<^verbatim>\<open>t[i]\<close>: the \<open>i\<close>-th slice along the first dimension.\<close>

definition select0 :: "'a tensor \<Rightarrow> nat \<Rightarrow> error + 'a tensor" where
  "select0 t i =
     (case shape t of
        [] \<Rightarrow> Inl IndexError
      | n # rest \<Rightarrow>
          if i < n then
            Inr \<lparr>shape = rest,
                 data = take (prod_list rest) (drop (i * prod_list rest) (data t))\<rparr>
          else Inl IndexError)"

section \<open>Single-precision numbers\<close>

text \<open>
  The tensors of the notebooks hold single-precision floating-point numbers, the default
  of the framework. A number is modelled as the real it denotes. An arithmetic operation
  on tensor entries returns the exact result rounded to the nearest single-precision
  number, ties to the even significand: \<open>float32\<close> is that rounding. The exponent of a
  magnitude is found among the exponents of the format, from \<open>-126\<close> (which also serves the
  subnormal numbers) to \<open>127\<close>, and the significand has 24 bits. Infinities and NaN are
  not modelled: beyond the largest finite number the rounding keeps the largest exponent.
\<close>

definition round_even :: "real \<Rightarrow> int" where
  "round_even x =
     (let f = \<lfloor>x\<rfloor>; r = x - of_int f
      in if r < 1 / 2 then f
         else if 1 / 2 < r then f + 1
         else if even f then f else f + 1)"

fun exponent_from :: "nat \<Rightarrow> int \<Rightarrow> real \<Rightarrow> int" where
  "exponent_from 0 e a = e"
| "exponent_from (Suc n) e a = (if a < 2 powi (e + 1) then e else exponent_from n (e + 1) a)"

definition exponent32 :: "real \<Rightarrow> int" where
  "exponent32 a = exponent_from 253 (- 126) a"

text \<open>The unit in the last place of a number of magnitude \<open>a\<close>.\<close>

definition quantum :: "real \<Rightarrow> real" where
  "quantum a = 2 powi (exponent32 a - 23)"

definition float32 :: "real \<Rightarrow> real" where
  "float32 x = sgn x * (of_int (round_even (\<bar>x\<bar> / quantum \<bar>x\<bar>)) * quantum \<bar>x\<bar>)"

definition is_float32 :: "real \<Rightarrow> bool" where
  "is_float32 x \<longleftrightarrow> float32 x = x"

section \<open>Training a network (Part 3)\<close>

text \<open>
  A parameter of the model is its tensor (\<^verbatim>\<open>p.data\<close>) and its gradient
  (\<^verbatim>\<open>p.grad\<close>), which is \<^verbatim>\<open>None\<close> until a backward pass reaches the parameter.
  Both hold single-precision numbers. The loss value that \<^verbatim>\<open>loss.item()\<close> hands to
  Python is a real number.
\<close>

record param =
  p_data :: "real tensor"
  p_grad :: "real tensor option"

text \<open>
  The model, the criterion and automatic differentiation belong to the framework. They
  are parameters of the embedding: \<open>forward_fn\<close> maps the parameter tensors and a
  batch of inputs to the output, \<open>criterion_fn\<close> maps output and labels to the scalar
  loss, and \<open>autograd_fn ps x y i k\<close> is the derivative of that loss with respect to
  entry \<open>k\<close> of parameter \<open>i\<close>, at the parameter tensors \<open>ps\<close> and the batch \<open>(x, y)\<close>.
  A backward pass reaches the parameters that take part in the computation of the
  output: \<open>in_graph i\<close> says that parameter \<open>i\<close> does. All parameters of the
  \<^verbatim>\<open>nn.Sequential\<close> models of the notebook do.
\<close>

record ('o, 'y) framework =
  forward_fn :: "real tensor list \<Rightarrow> real tensor \<Rightarrow> 'o"
  criterion_fn :: "'o \<Rightarrow> 'y \<Rightarrow> real"
  autograd_fn :: "real tensor list \<Rightarrow> real tensor \<Rightarrow> 'y \<Rightarrow> nat \<Rightarrow> nat \<Rightarrow> real"
  in_graph :: "nat \<Rightarrow> bool"

text \<open>
  The output of a forward pass and the loss remember the computation that produced
  them (the parameter tensors and the batch), which is what \<^verbatim>\<open>loss.backward()\<close>
  differentiates.
\<close>

record 'o model_output =
  out_value :: 'o
  out_params :: "real tensor list"
  out_images :: "real tensor"

record 'y loss =
  item :: real
  loss_params :: "real tensor list"
  loss_images :: "real tensor"
  loss_labels :: 'y

text \<open>The framework calls a training step makes, in the order it makes them.\<close>

datatype call = ZeroGrad | Forward | Criterion | Backward | OptimStep

text \<open>
  The state of a training run: the parameters of \<^verbatim>\<open>model\<close>, the learning rate of
  \<^verbatim>\<open>optimizer\<close>, and the log of the framework calls made so far.
\<close>

record trainer =
  params :: "param list"
  lr :: real
  calls :: "call list"

definition zeros_like :: "real tensor \<Rightarrow> real tensor" where
  "zeros_like t = \<lparr>shape = shape t, data = map (\<lambda>_. 0) (data t)\<rparr>"

text \<open>\<^verbatim>\<open>a += b\<close> on tensors: the sum of the entries, in single precision.\<close>

definition tensor_add :: "real tensor \<Rightarrow> real tensor \<Rightarrow> real tensor" where
  "tensor_add a b =
     \<lparr>shape = shape a, data = map2 (\<lambda>u v. float32 (u + v)) (data a) (data b)\<rparr>"

text \<open>
  The gradient of the loss of the batch \<open>(x, y)\<close> at the parameter tensors \<open>ps\<close>, with
  respect to parameter \<open>i\<close>, whose tensor is \<open>p\<close>: a tensor of the shape of \<open>p\<close>, with the
  derivatives in single precision.
\<close>

definition batch_gradient ::
  "('o, 'y) framework \<Rightarrow> real tensor list \<Rightarrow> real tensor \<Rightarrow> 'y \<Rightarrow> nat \<Rightarrow> real tensor \<Rightarrow> real tensor" where
  "batch_gradient F ps x y i p =
     \<lparr>shape = shape p,
      data = map (\<lambda>k. float32 (autograd_fn F ps x y i k)) [0 ..< length (data p)]\<rparr>"

definition grad_tensor ::
  "('o, 'y) framework \<Rightarrow> 'y loss \<Rightarrow> nat \<Rightarrow> real tensor \<Rightarrow> real tensor" where
  "grad_tensor F l i p = batch_gradient F (loss_params l) (loss_images l) (loss_labels l) i p"

text \<open>
  \<^verbatim>\<open>optimizer.zero_grad()\<close>: every gradient that exists is set to zeros; a gradient that
  is \<^verbatim>\<open>None\<close> stays \<^verbatim>\<open>None\<close>.
\<close>

definition zero_grad :: "trainer \<Rightarrow> trainer" where
  "zero_grad s =
     s\<lparr>params := map (\<lambda>p. p\<lparr>p_grad := map_option zeros_like (p_grad p)\<rparr>) (params s),
       calls := calls s @ [ZeroGrad]\<rparr>"

text \<open>\<^verbatim>\<open>model(images)\<close> and \<^verbatim>\<open>model.forward(images)\<close>.\<close>

definition forward :: "('o, 'y) framework \<Rightarrow> trainer \<Rightarrow> real tensor \<Rightarrow> 'o model_output \<times> trainer" where
  "forward F s images =
     (\<lparr>out_value = forward_fn F (map p_data (params s)) images,
       out_params = map p_data (params s),
       out_images = images\<rparr>,
      s\<lparr>calls := calls s @ [Forward]\<rparr>)"

text \<open>\<^verbatim>\<open>criterion(output, labels)\<close>.\<close>

definition criterion :: "('o, 'y) framework \<Rightarrow> trainer \<Rightarrow> 'o model_output \<Rightarrow> 'y \<Rightarrow> 'y loss \<times> trainer" where
  "criterion F s output labels =
     (\<lparr>item = criterion_fn F (out_value output) labels,
       loss_params = out_params output,
       loss_images = out_images output,
       loss_labels = labels\<rparr>,
      s\<lparr>calls := calls s @ [Criterion]\<rparr>)"

text \<open>
  \<^verbatim>\<open>loss.backward()\<close>: for each parameter the backward pass reaches, the gradient of
  the loss with respect to it is stored in \<^verbatim>\<open>p.grad\<close> when that is \<^verbatim>\<open>None\<close> and added to
  it otherwise (``when you do multiple backwards passes with the same parameters, the
  gradients are accumulated''). A parameter outside the computation keeps its \<^verbatim>\<open>p.grad\<close>.
\<close>

definition accumulate :: "real tensor option \<Rightarrow> real tensor \<Rightarrow> real tensor" where
  "accumulate old g = (case old of None \<Rightarrow> g | Some a \<Rightarrow> tensor_add a g)"

definition backward :: "('o, 'y) framework \<Rightarrow> 'y loss \<Rightarrow> trainer \<Rightarrow> trainer" where
  "backward F l s =
     s\<lparr>params :=
         map2 (\<lambda>i p.
                 if in_graph F i
                 then p\<lparr>p_grad := Some (accumulate (p_grad p) (grad_tensor F l i (p_data p)))\<rparr>
                 else p)
           [0 ..< length (params s)] (params s),
       calls := calls s @ [Backward]\<rparr>"

text \<open>
  \<^verbatim>\<open>optimizer.step()\<close> of \<^verbatim>\<open>optim.SGD(model.parameters(), lr=...)\<close>: every parameter
  that has a gradient becomes \<open>W - lr * grad\<close>, entry by entry
  (\<open>W' = W - \<alpha> \<partial>\<ell>/\<partial>W\<close> in the notebook); a parameter whose gradient is \<^verbatim>\<open>None\<close> is skipped.
  The learning rate is converted to single precision, and each entry is computed as one
  fused multiply-add, with a single rounding, and stored in single precision.
\<close>

definition sgd_update :: "real \<Rightarrow> real tensor \<Rightarrow> real tensor \<Rightarrow> real tensor" where
  "sgd_update \<alpha> w g =
     \<lparr>shape = shape w,
      data = map2 (\<lambda>x d. float32 (x - float32 \<alpha> * d)) (data w) (data g)\<rparr>"

definition optimizer_step :: "trainer \<Rightarrow> trainer" where
  "optimizer_step s =
     s\<lparr>params :=
         map (\<lambda>p. case p_grad p of
                     None \<Rightarrow> p
                   | Some g \<Rightarrow> p\<lparr>p_data := sgd_update (lr s) (p_data p) g\<rparr>)
           (params s),
       calls := calls s @ [OptimStep]\<rparr>"

text \<open>
  The training pass of the loop:
  \<^verbatim>\<open>
  optimizer.zero_grad()
  output = model.forward(images)
  loss = criterion(output, labels)
  loss.backward()
  optimizer.step()
  \<close>
  It returns \<^verbatim>\<open>loss.item()\<close> with the new state.
\<close>

definition training_pass ::
  "('o, 'y) framework \<Rightarrow> trainer \<Rightarrow> real tensor \<Rightarrow> 'y \<Rightarrow> real \<times> trainer" where
  "training_pass F s images labels =
     (let s1 = zero_grad s;
          (output, s2) = forward F s1 images;
          (l, s3) = criterion F s2 output labels;
          s4 = backward F l s3;
          s5 = optimizer_step s4
      in (item l, s5))"

text \<open>
  The one-off training step of the two demonstration cells: the batch is flattened in
  place with \<^verbatim>\<open>images.resize_(64, 784)\<close>, then gradients are cleared, the forward pass,
  the loss and the backward pass follow, and the next cell calls \<^verbatim>\<open>optimizer.step()\<close>.
\<close>

definition single_step ::
  "(nat \<Rightarrow> real) \<Rightarrow> ('o, 'y) framework \<Rightarrow> trainer \<Rightarrow> real tensor \<Rightarrow> 'y \<Rightarrow> real \<times> trainer" where
  "single_step junk F s images labels =
     (let images' = resize_images junk images;
          s1 = zero_grad s;
          (output, s2) = forward F s1 images';
          (l, s3) = criterion F s2 output labels;
          s4 = backward F l s3;
          s5 = optimizer_step s4
      in (item l, s5))"

text \<open>
  The same pass with the call of \<^verbatim>\<open>optimizer.zero_grad()\<close> left out: the pitfall
  the notebook warns about.
\<close>

definition training_pass_no_zero_grad ::
  "('o, 'y) framework \<Rightarrow> trainer \<Rightarrow> real tensor \<Rightarrow> 'y \<Rightarrow> real \<times> trainer" where
  "training_pass_no_zero_grad F s images labels =
     (let (output, s2) = forward F s images;
          (l, s3) = criterion F s2 output labels;
          s4 = backward F l s3;
          s5 = optimizer_step s4
      in (item l, s5))"

text \<open>
  The loop over the batches of one epoch, with the accumulator \<^verbatim>\<open>running_loss\<close>:
  \<^verbatim>\<open>
  for images, labels in trainloader:
      images = images.view(images.shape[0], -1)
      ... training pass ...
      running_loss += loss.item()
  \<close>
\<close>

fun train_batches ::
  "('o, 'y) framework \<Rightarrow> trainer \<Rightarrow> real \<Rightarrow> (real tensor \<times> 'y) list \<Rightarrow> error + real \<times> trainer" where
  "train_batches F s running_loss [] = Inr (running_loss, s)"
| "train_batches F s running_loss ((images, labels) # rest) =
     (case flatten_images images of
        Inl e \<Rightarrow> Inl e
      | Inr flat \<Rightarrow>
          (case training_pass F s flat labels of
             (l, s') \<Rightarrow> train_batches F s' (running_loss + l) rest))"

text \<open>
  One epoch: \<^verbatim>\<open>running_loss = 0\<close>, the loop, and in its \<^verbatim>\<open>else\<close> branch, which runs
  once the loop is through, \<^verbatim>\<open>print(f"Training loss: {running_loss/len(trainloader)}")\<close>.
  The loader yields \<^verbatim>\<open>len(trainloader)\<close> batches, so that is the length of the list;
  Python raises on the division when it is zero.
\<close>

datatype printed = TrainingLoss real

definition train_epoch ::
  "('o, 'y) framework \<Rightarrow> trainer \<Rightarrow> (real tensor \<times> 'y) list \<Rightarrow> error + printed list \<times> trainer" where
  "train_epoch F s trainloader =
     (case train_batches F s 0 trainloader of
        Inl e \<Rightarrow> Inl e
      | Inr (running_loss, s') \<Rightarrow>
          if length trainloader = 0 then Inl ZeroDivisionError
          else Inr ([TrainingLoss (running_loss / real (length trainloader))], s'))"

text \<open>
  \<^verbatim>\<open>for e in range(epochs)\<close>: the loader is shuffled, so every epoch has its own list
  of batches; the argument lists them epoch by epoch. The result is everything printed.
\<close>

fun train ::
  "('o, 'y) framework \<Rightarrow> trainer \<Rightarrow> (real tensor \<times> 'y) list list \<Rightarrow> error + printed list \<times> trainer" where
  "train F s [] = Inr ([], s)"
| "train F s (trainloader # later) =
     (case train_epoch F s trainloader of
        Inl e \<Rightarrow> Inl e
      | Inr (out, s') \<Rightarrow>
          (case train F s' later of
             Inl e \<Rightarrow> Inl e
           | Inr (out', s'') \<Rightarrow> Inr (out @ out', s'')))"

text \<open>
  Every gradient that exists has the shape of its parameter (the framework keeps it
  so), and every tensor has as many entries as its shape says.
\<close>

definition wf_param :: "param \<Rightarrow> bool" where
  "wf_param p \<longleftrightarrow>
     (case p_grad p of
        None \<Rightarrow> True
      | Some g \<Rightarrow> shape g = shape (p_data p) \<and> length (data g) = length (data (p_data p)))"

definition wf_trainer :: "trainer \<Rightarrow> bool" where
  "wf_trainer s \<longleftrightarrow> list_all wf_param (params s)"

text \<open>The parameter tensors hold single-precision numbers.\<close>

definition float32_params :: "trainer \<Rightarrow> bool" where
  "float32_params s \<longleftrightarrow> list_all (\<lambda>p. list_all is_float32 (data (p_data p))) (params s)"

text \<open>The per-batch loss values of one epoch, in the order of the batches.\<close>

fun batch_losses ::
  "('o, 'y) framework \<Rightarrow> trainer \<Rightarrow> (real tensor \<times> 'y) list \<Rightarrow> real list" where
  "batch_losses F s [] = []"
| "batch_losses F s ((images, labels) # rest) =
     (case flatten_images images of
        Inl e \<Rightarrow> []
      | Inr flat \<Rightarrow>
          (case training_pass F s flat labels of
             (l, s') \<Rightarrow> l # batch_losses F s' rest))"

text \<open>
  The parameters after one training pass on the batch \<open>(x, y)\<close>. A parameter the
  backward pass reaches holds the gradient of the batch, taken at the parameters of
  \<open>s\<close>, and nothing else, and its tensor is \<open>W - lr * grad\<close>. A parameter outside the
  computation has had its gradient, if it had one, set to zeros and has been updated
  with those zeros.
\<close>

definition stepped :: "('o, 'y) framework \<Rightarrow> trainer \<Rightarrow> real tensor \<Rightarrow> 'y \<Rightarrow> param list" where
  "stepped F s x y =
     map2 (\<lambda>i p.
            if in_graph F i then
              \<lparr>p_data = sgd_update (lr s) (p_data p)
                          (batch_gradient F (map p_data (params s)) x y i (p_data p)),
               p_grad = Some (batch_gradient F (map p_data (params s)) x y i (p_data p))\<rparr>
            else
              (case p_grad p of
                 None \<Rightarrow> p
               | Some g \<Rightarrow>
                   \<lparr>p_data = sgd_update (lr s) (p_data p) (zeros_like g),
                    p_grad = Some (zeros_like g)\<rparr>))
       [0 ..< length (params s)] (params s)"

text \<open>
  The averages an entire run reports, epoch by epoch: the sum of the per-batch losses
  of the epoch over the number of its batches.
\<close>

fun epoch_averages ::
  "('o, 'y) framework \<Rightarrow> trainer \<Rightarrow> (real tensor \<times> 'y) list list \<Rightarrow> real list" where
  "epoch_averages F s [] = []"
| "epoch_averages F s (trainloader # later) =
     (case train_batches F s 0 trainloader of
        Inl e \<Rightarrow> []
      | Inr (r, s') \<Rightarrow>
          sum_list (batch_losses F s trainloader) / real (length trainloader)
            # epoch_averages F s' later)"

text \<open>A batch the loop can flatten.\<close>

definition flattenable :: "real tensor \<times> 'y \<Rightarrow> bool" where
  "flattenable b \<longleftrightarrow> \<not> isl (flatten_images (fst b))"

text \<open>A model on which no backward pass has run yet: every \<^verbatim>\<open>p.grad\<close> is \<^verbatim>\<open>None\<close>.\<close>

definition fresh :: "trainer \<Rightarrow> bool" where
  "fresh s \<longleftrightarrow> list_all (\<lambda>p. p_grad p = None) (params s)"

definition all_zero :: "real tensor \<Rightarrow> bool" where
  "all_zero t \<longleftrightarrow> list_all (\<lambda>v. v = 0) (data t)"

text \<open>
  A small differentiable model for concrete runs. It has two parameter tensors; the
  output is the sum of the entries of the first times the sum of the input entries, the
  loss is the squared error against a scalar label, and the gradient is its derivative.
  The second parameter takes no part in the output.
\<close>

definition toy_forward :: "real tensor list \<Rightarrow> real tensor \<Rightarrow> real" where
  "toy_forward ps x =
     (case ps of [] \<Rightarrow> 0 | p # _ \<Rightarrow> sum_list (data p) * sum_list (data x))"

definition toy_criterion :: "real \<Rightarrow> real \<Rightarrow> real" where
  "toy_criterion out y = (out - y) * (out - y)"

definition toy_autograd :: "real tensor list \<Rightarrow> real tensor \<Rightarrow> real \<Rightarrow> nat \<Rightarrow> nat \<Rightarrow> real" where
  "toy_autograd ps x y i k =
     (if i = 0 then 2 * (toy_forward ps x - y) * sum_list (data x) else 0)"

definition toy_in_graph :: "nat \<Rightarrow> bool" where
  "toy_in_graph i \<longleftrightarrow> i = 0"

definition toy :: "(real, real) framework" where
  "toy = \<lparr>forward_fn = toy_forward, criterion_fn = toy_criterion,
          autograd_fn = toy_autograd, in_graph = toy_in_graph\<rparr>"

text \<open>
  The model before any backward pass, and the same model with gradients left over from
  earlier passes. Three batches of one flattened input each: a plain one, a blank one,
  whose gradient is zero, and a faint one, whose gradient is small and not zero.
\<close>

definition toy_trainer :: trainer where
  "toy_trainer =
     \<lparr>params = [\<lparr>p_data = \<lparr>shape = [2], data = [1, 2]\<rparr>, p_grad = None\<rparr>,
                \<lparr>p_data = \<lparr>shape = [1], data = [5]\<rparr>, p_grad = None\<rparr>],
      lr = 1 / 32, calls = []\<rparr>"

definition toy_trainer_stale :: trainer where
  "toy_trainer_stale =
     \<lparr>params = [\<lparr>p_data = \<lparr>shape = [2], data = [1, 2]\<rparr>,
                 p_grad = Some \<lparr>shape = [2], data = [5, 7]\<rparr>\<rparr>,
                \<lparr>p_data = \<lparr>shape = [1], data = [5]\<rparr>,
                 p_grad = Some \<lparr>shape = [1], data = [3]\<rparr>\<rparr>],
      lr = 1 / 32, calls = [ZeroGrad, Forward, Criterion, Backward, OptimStep]\<rparr>"

definition toy_images :: "real tensor" where
  "toy_images = \<lparr>shape = [1, 2], data = [1, 1]\<rparr>"

definition toy_blank :: "real tensor" where
  "toy_blank = \<lparr>shape = [1, 2], data = [0, 0]\<rparr>"

definition toy_faint :: "real tensor" where
  "toy_faint = \<lparr>shape = [1, 2], data = [1 / 2 ^ 20, 0]\<rparr>"

text \<open>The state of \<open>toy_trainer\<close> after one training pass on \<open>toy_images\<close> with label 0.\<close>

definition after_first :: trainer where
  "after_first =
     \<lparr>params = [\<lparr>p_data = \<lparr>shape = [2], data = [1 / 4, 5 / 4]\<rparr>,
                 p_grad = Some \<lparr>shape = [2], data = [24, 24]\<rparr>\<rparr>,
                \<lparr>p_data = \<lparr>shape = [1], data = [5]\<rparr>, p_grad = None\<rparr>],
      lr = 1 / 32, calls = [ZeroGrad, Forward, Criterion, Backward, OptimStep]\<rparr>"

section \<open>Saving and loading models\<close>

subsection \<open>Layers and the network\<close>

text \<open>
  \<^verbatim>\<open>nn.Linear(in_features, out_features)\<close>: a weight of shape
  \<open>[out_features, in_features]\<close> and a bias of shape \<open>[out_features]\<close>, as the state
  dict and the error message of the notebook print them. The framework draws the initial
  entries at random; \<open>init name k\<close> is the entry it draws at flat index \<open>k\<close> of
  the parameter \<open>name\<close>.
\<close>

record 'a linear =
  in_features :: nat
  out_features :: nat
  weight :: "'a tensor"
  bias :: "'a tensor"

definition new_tensor :: "(nat \<Rightarrow> 'a) \<Rightarrow> nat list \<Rightarrow> 'a tensor" where
  "new_tensor f sh = \<lparr>shape = sh, data = map f [0 ..< prod_list sh]\<rparr>"

definition Linear :: "(pname \<Rightarrow> nat \<Rightarrow> 'a) \<Rightarrow> pname \<Rightarrow> pname \<Rightarrow> nat \<Rightarrow> nat \<Rightarrow> 'a linear" where
  "Linear init wname bname n_in n_out =
     \<lparr>in_features = n_in, out_features = n_out,
      weight = new_tensor (init wname) [n_out, n_in],
      bias = new_tensor (init bname) [n_out]\<rparr>"

record 'a network =
  net_hidden :: "'a linear list"
  net_output :: "'a linear"

text \<open>
  Modelled from the spec: the class \<^verbatim>\<open>fc_model.Network\<close>, whose file is not part of
  the sources; only its calls and its printed form are. The spec describes a single
  shallow class with a list-like collection of layers, instantiated to the declared shape
  from an input size, an output size and an ordered sequence of hidden-layer widths, with
  a weight and a bias for each layer. So the hidden layers chain the input size through
  the widths (\<open>Linear(784, 512)\<close>, \<open>Linear(512, 256)\<close>, \<open>Linear(256, 128)\<close> for the
  widths \<open>[512, 256, 128]\<close>), and the output layer maps the last width to the output
  size (\<open>Linear(128, 10)\<close>). The spec does not single out the empty sequence of widths;
  here the output layer then reads the input directly.
\<close>

definition Network :: "(pname \<Rightarrow> nat \<Rightarrow> 'a) \<Rightarrow> nat \<Rightarrow> nat \<Rightarrow> nat list \<Rightarrow> 'a network" where
  "Network init n_input n_output hidden =
     \<lparr>net_hidden =
        map2 (\<lambda>k (a, b). Linear init (HiddenWeight k) (HiddenBias k) a b)
          [0 ..< length hidden] (zip (n_input # hidden) hidden),
      net_output = Linear init OutputWeight OutputBias (last (n_input # hidden)) n_output\<rparr>"

text \<open>
  \<^verbatim>\<open>model.state_dict()\<close>: the parameters by name, in the order of the layers
  (\<^verbatim>\<open>hidden_layers.0.weight\<close>, \<^verbatim>\<open>hidden_layers.0.bias\<close>, \<dots>, \<^verbatim>\<open>output.weight\<close>,
  \<^verbatim>\<open>output.bias\<close>).
\<close>

definition hidden_entries :: "('l \<Rightarrow> 'v) \<Rightarrow> ('l \<Rightarrow> 'v) \<Rightarrow> 'l list \<Rightarrow> (pname \<times> 'v) list" where
  "hidden_entries w b ls =
     concat (map2 (\<lambda>k l. [(HiddenWeight k, w l), (HiddenBias k, b l)]) [0 ..< length ls] ls)"

definition model_state_dict :: "'a network \<Rightarrow> (pname \<times> 'a tensor) list" where
  "model_state_dict m =
     hidden_entries weight bias (net_hidden m)
     @ [(OutputWeight, weight (net_output m)), (OutputBias, bias (net_output m))]"

subsection \<open>\<^verbatim>\<open>load_state_dict\<close>\<close>

text \<open>
  \<^verbatim>\<open>model.load_state_dict(state_dict)\<close> in its default strict mode. For every
  parameter of the model, the saved tensor of that name is copied into it; a saved tensor
  of another shape is not copied but reported. Keys the model expects and the state dict
  lacks, and keys of the state dict the model does not have, are reported too. With
  anything to report the call raises, listing all of it.
\<close>

definition shapes_of :: "(pname \<times> 'a tensor) list \<Rightarrow> (pname \<times> nat list) list" where
  "shapes_of sd = map (\<lambda>(k, t). (k, shape t)) sd"

definition missing_keys :: "(pname \<times> nat list) list \<Rightarrow> (pname \<times> nat list) list \<Rightarrow> pname list" where
  "missing_keys own saved = filter (\<lambda>k. map_of saved k = None) (map fst own)"

definition unexpected_keys :: "(pname \<times> nat list) list \<Rightarrow> (pname \<times> nat list) list \<Rightarrow> pname list" where
  "unexpected_keys own saved = filter (\<lambda>k. map_of own k = None) (map fst saved)"

definition size_mismatches ::
  "(pname \<times> nat list) list \<Rightarrow> (pname \<times> nat list) list \<Rightarrow> (pname \<times> nat list \<times> nat list) list" where
  "size_mismatches own saved =
     concat (map (\<lambda>(k, sh). case map_of saved k of
                               None \<Rightarrow> []
                             | Some sh' \<Rightarrow> if sh' = sh then [] else [(k, sh', sh)])
               own)"

text \<open>\<^verbatim>\<open>param.copy_(input_param)\<close>: the entries of the saved tensor, in the parameter.\<close>

definition copy_from :: "(pname \<times> 'a tensor) list \<Rightarrow> pname \<Rightarrow> 'a tensor \<Rightarrow> 'a tensor" where
  "copy_from sd k t = (case map_of sd k of None \<Rightarrow> t | Some t' \<Rightarrow> t\<lparr>data := data t'\<rparr>)"

definition load_linear :: "(pname \<times> 'a tensor) list \<Rightarrow> pname \<Rightarrow> pname \<Rightarrow> 'a linear \<Rightarrow> 'a linear" where
  "load_linear sd wname bname l =
     l\<lparr>weight := copy_from sd wname (weight l), bias := copy_from sd bname (bias l)\<rparr>"

definition load_state_dict :: "'a network \<Rightarrow> (pname \<times> 'a tensor) list \<Rightarrow> error + 'a network" where
  "load_state_dict m sd =
     (let own = shapes_of (model_state_dict m);
          saved = shapes_of sd;
          missing = missing_keys own saved;
          unexpected = unexpected_keys own saved;
          mismatch = size_mismatches own saved
      in if missing = [] \<and> unexpected = [] \<and> mismatch = [] then
           Inr \<lparr>net_hidden =
                  map2 (\<lambda>k l. load_linear sd (HiddenWeight k) (HiddenBias k) l)
                    [0 ..< length (net_hidden m)] (net_hidden m),
                net_output = load_linear sd OutputWeight OutputBias (net_output m)\<rparr>
         else Inl (LoadStateDictError missing unexpected mismatch))"

subsection \<open>Checkpoints and files\<close>

text \<open>
  The checkpoint of the notebook:
  \<^verbatim>\<open>
  checkpoint = {'input_size': 784,
                'output_size': 10,
                'hidden_layers': [each.out_features for each in model.hidden_layers],
                'state_dict': model.state_dict()}
  \<close>
\<close>

record 'a checkpoint =
  input_size :: nat
  output_size :: nat
  hidden_layers :: "nat list"
  state_dict :: "(pname \<times> 'a tensor) list"

definition make_checkpoint :: "'a network \<Rightarrow> 'a checkpoint" where
  "make_checkpoint model =
     \<lparr>input_size = 784,
      output_size = 10,
      hidden_layers = map out_features (net_hidden model),
      state_dict = model_state_dict model\<rparr>"

text \<open>
  The notebook saves two kinds of object: a bare state dict
  (\<^verbatim>\<open>torch.save(model.state_dict(), 'checkpoint.pth')\<close>) and a checkpoint
  (\<^verbatim>\<open>torch.save(checkpoint, 'checkpoint.pth')\<close>). The content of a file is the
  sequence of objects written to it, in the order of writing; the byte format of an
  object is the framework's. \<^verbatim>\<open>torch.save(obj, path)\<close> opens the file for writing,
  which creates it or empties it, and writes the object. \<^verbatim>\<open>torch.load(path)\<close> reads
  the first object of the file.
\<close>

datatype 'a saved = SavedStateDict "(pname \<times> 'a tensor) list" | SavedCheckpoint "'a checkpoint"

type_synonym 'a files = "string \<Rightarrow> 'a saved list option"

definition open_wb :: "string \<Rightarrow> 'a files \<Rightarrow> 'a files" where
  "open_wb path fs = fs(path \<mapsto> [])"

definition write_object :: "'a saved \<Rightarrow> string \<Rightarrow> 'a files \<Rightarrow> 'a files" where
  "write_object obj path fs =
     (case fs path of None \<Rightarrow> fs | Some content \<Rightarrow> fs(path \<mapsto> content @ [obj]))"

definition torch_save :: "'a saved \<Rightarrow> string \<Rightarrow> 'a files \<Rightarrow> 'a files" where
  "torch_save obj path fs = write_object obj path (open_wb path fs)"

definition torch_load :: "string \<Rightarrow> 'a files \<Rightarrow> error + 'a saved" where
  "torch_load path fs =
     (case fs path of
        None \<Rightarrow> Inl FileNotFoundError
      | Some [] \<Rightarrow> Inl EOFError
      | Some (obj # _) \<Rightarrow> Inr obj)"

text \<open>
  \<^verbatim>\<open>
  def load_checkpoint(filepath):
      checkpoint = torch.load(filepath)
      model = fc_model.Network(checkpoint['input_size'],
                               checkpoint['output_size'],
                               checkpoint['hidden_layers'])
      model.load_state_dict(checkpoint['state_dict'])
      return model
  \<close>
  A file that holds a bare state dict has no key \<^verbatim>\<open>'input_size'\<close>.
\<close>

definition load_checkpoint :: "(pname \<Rightarrow> nat \<Rightarrow> 'a) \<Rightarrow> 'a files \<Rightarrow> string \<Rightarrow> error + 'a network" where
  "load_checkpoint init fs filepath =
     (case torch_load filepath fs of
        Inl e \<Rightarrow> Inl e
      | Inr (SavedStateDict sd) \<Rightarrow> Inl KeyError
      | Inr (SavedCheckpoint checkpoint) \<Rightarrow>
          load_state_dict
            (Network init (input_size checkpoint) (output_size checkpoint)
               (hidden_layers checkpoint))
            (state_dict checkpoint))"

text \<open>
  The invariant of the data model: the declared architecture matches the shape of every
  tensor of the parameter mapping, name by name.
\<close>

definition expected_shapes :: "nat \<Rightarrow> nat \<Rightarrow> nat list \<Rightarrow> (pname \<times> nat list) list" where
  "expected_shapes n_input n_output hidden =
     hidden_entries (\<lambda>(a, b). [b, a]) (\<lambda>(a, b). [b]) (zip (n_input # hidden) hidden)
     @ [(OutputWeight, [n_output, last (n_input # hidden)]), (OutputBias, [n_output])]"

definition consistent :: "'a checkpoint \<Rightarrow> bool" where
  "consistent c \<longleftrightarrow>
     shapes_of (state_dict c) = expected_shapes (input_size c) (output_size c) (hidden_layers c)"

text \<open>An empty directory and two initialisations, for concrete runs.\<close>

definition no_files :: "int files" where
  "no_files = Map.empty"

definition zero_init :: "pname \<Rightarrow> nat \<Rightarrow> int" where
  "zero_init name k = 0"

definition index_init :: "pname \<Rightarrow> nat \<Rightarrow> int" where
  "index_init name k = int k + 1"

section \<open>Flattening a batch\<close>

lemma infer_flat: "0 < n \<Longrightarrow> infer_size [int n, -1] (n * m) = Inr [n, m]"
  by (simp add: infer_size_def Let_def)

text \<open>
  Claim C10. A batch of \<open>n\<close> images (\<open>n\<close> at least one, as every batch of a loader
  is) has the shape \<open>[n, 1, 28, 28]\<close>. The flattening of the training loop,
  \<^verbatim>\<open>images.view(images.shape[0], -1)\<close>, returns for every such batch, full or partial, a
  tensor of shape \<open>[n, 784]\<close> with the same entries in the same order; row \<open>i\<close> of it
  holds the 784 pixels of image \<open>i\<close>. The demonstration step resizes in place to
  exactly \<open>[64, 784]\<close>: the result has the entries of the batch if and only if the batch
  has 64 images; a smaller batch is padded with uninitialised entries and a larger one is
  cut off.
\<close>

theorem flatten_images_every_batch:
  assumes "wf_tensor images" and "shape images = [n, 1, 28, 28]" and "0 < n"
  shows "flatten_images images = Inr \<lparr>shape = [n, 784], data = data images\<rparr>
       \<and> (\<forall>i<n. \<exists>img row.
              select0 images i = Inr img
            \<and> select0 \<lparr>shape = [n, 784], data = data images\<rparr> i = Inr row
            \<and> shape img = [1, 28, 28] \<and> shape row = [784]
            \<and> length (data img) = 784 \<and> data row = data img)
       \<and> shape (resize_images junk images) = [64, 784]
       \<and> (data (resize_images junk images) = data images \<longleftrightarrow> n = 64)
       \<and> (n < 64 \<longrightarrow> data (resize_images junk images)
                       = data images @ map junk [n * 784 ..< 64 * 784])
       \<and> (64 < n \<longrightarrow> data (resize_images junk images) = take (64 * 784) (data images))"
proof -
  have len: "length (data images) = n * 784"
    using assms by (simp add: wf_tensor_def numel_def)
  have "numel images = n * 784" using assms by (simp add: numel_def)
  then have flat: "flatten_images images = Inr \<lparr>shape = [n, 784], data = data images\<rparr>"
    using assms infer_flat[of n 784] by (simp add: flatten_images_def view_def)
  have rows: "\<forall>i<n. \<exists>img row.
              select0 images i = Inr img
            \<and> select0 \<lparr>shape = [n, 784], data = data images\<rparr> i = Inr row
            \<and> shape img = [1, 28, 28] \<and> shape row = [784]
            \<and> length (data img) = 784 \<and> data row = data img"
  proof (intro allI impI)
    fix i assume i: "i < n"
    then have "i * 784 + 784 \<le> n * 784" by simp
    then have "min (n * 784 - i * 784) 784 = 784" by simp
    then show "\<exists>img row.
              select0 images i = Inr img
            \<and> select0 \<lparr>shape = [n, 784], data = data images\<rparr> i = Inr row
            \<and> shape img = [1, 28, 28] \<and> shape row = [784]
            \<and> length (data img) = 784 \<and> data row = data img"
      using i assms(2) len by (simp add: select0_def)
  qed
  have l2: "length (data (resize_images junk images)) = 50176"
    by (simp add: resize_images_def resize_inplace_def)
  have iff: "data (resize_images junk images) = data images \<longleftrightarrow> n = 64"
  proof
    assume "data (resize_images junk images) = data images"
    then have "n * 784 = 50176" using len l2 by simp
    then show "n = 64" by simp
  next
    assume "n = 64"
    then show "data (resize_images junk images) = data images"
      using len by (simp add: resize_images_def resize_inplace_def)
  qed
  have small: "n < 64 \<longrightarrow> data (resize_images junk images)
                       = data images @ map junk [n * 784 ..< 64 * 784]"
    using len by (simp add: resize_images_def resize_inplace_def)
  have big: "64 < n \<longrightarrow> data (resize_images junk images) = take (64 * 784) (data images)"
    using len by (simp add: resize_images_def resize_inplace_def)
  have shp: "shape (resize_images junk images) = [64, 784]"
    by (simp add: resize_images_def resize_inplace_def)
  show ?thesis
    using flat rows shp iff small big by blast
qed

theorem flatten_images_every_batch_witness:
  "wf_tensor \<lparr>shape = [1, 1, 28, 28], data = replicate 784 (0::real)\<rparr>
   \<and> flatten_images \<lparr>shape = [1, 1, 28, 28], data = replicate 784 (0::real)\<rparr>
       = Inr \<lparr>shape = [1, 784], data = replicate 784 0\<rparr>
   \<and> data (resize_images (\<lambda>k. 1) \<lparr>shape = [1, 1, 28, 28], data = replicate 784 (0::real)\<rparr>)
       \<noteq> replicate 784 0"
proof -
  let ?t = "\<lparr>shape = [1, 1, 28, 28], data = replicate 784 (0::real)\<rparr>"
  have wf: "wf_tensor ?t"
    unfolding wf_tensor_def numel_def tensor.select_convs length_replicate by simp
  have sh: "shape ?t = [1, 1, 28, 28]"
    unfolding tensor.select_convs ..
  have one: "0 < (1::nat)" by simp
  note T = flatten_images_every_batch[OF wf sh one, of "\<lambda>k. 1"]
  have a: "flatten_images ?t = Inr \<lparr>shape = [1, 784], data = data ?t\<rparr>"
    using T by blast
  have b: "(data (resize_images (\<lambda>k. 1) ?t) = data ?t) = ((1::nat) = 64)"
    using T by blast
  have "data (resize_images (\<lambda>k. 1) ?t) \<noteq> data ?t"
    unfolding b by simp
  then show ?thesis
    using wf a unfolding tensor.select_convs by blast
qed

section \<open>Properties of single-precision rounding\<close>

declare exponent_from.simps [simp del]

lemma exponent_from_eq:
  "e0 \<le> e \<Longrightarrow> e \<le> e0 + int n \<Longrightarrow> 2 powi e \<le> a \<Longrightarrow> (a < 2 powi (e + 1) \<or> e = e0 + int n)
     \<Longrightarrow> exponent_from n e0 a = e"
proof (induction n arbitrary: e0)
  case 0
  then show ?case by (simp add: exponent_from.simps)
next
  case (Suc n)
  show ?case
  proof (cases "a < 2 powi (e0 + 1)")
    case True
    have "e < e0 + 1"
    proof (rule ccontr)
      assume "\<not> e < e0 + 1"
      then have "(2::real) powi (e0 + 1) \<le> 2 powi e" by (intro power_int_increasing) auto
      with Suc.prems(3) True show False by simp
    qed
    with Suc.prems(1) True show ?thesis by (simp add: exponent_from.simps)
  next
    case False
    have "e0 < e"
    proof (rule ccontr)
      assume "\<not> e0 < e"
      with Suc.prems(1) have "e = e0" by simp
      with Suc.prems(4) False show False by simp
    qed
    then have "exponent_from n (e0 + 1) a = e"
      using Suc.prems by (intro Suc.IH) auto
    with False show ?thesis by (simp add: exponent_from.simps)
  qed
qed

lemma exponent_from_low: "a < 2 powi (e0 + 1) \<Longrightarrow> exponent_from n e0 a = e0"
  by (cases n) (simp_all add: exponent_from.simps)

lemma exponent32_low: "a < 2 powi (- 125) \<Longrightarrow> exponent32 a = - 126"
  unfolding exponent32_def by (rule exponent_from_low) simp

lemma exponent32_eq:
  "- 126 \<le> e \<Longrightarrow> e \<le> 127 \<Longrightarrow> 2 powi e \<le> a \<Longrightarrow> a < 2 powi (e + 1) \<or> e = 127
     \<Longrightarrow> exponent32 a = e"
  unfolding exponent32_def by (rule exponent_from_eq) auto

lemma exponent_from_range: "e0 \<le> exponent_from n e0 a \<and> exponent_from n e0 a \<le> e0 + int n"
proof (induction n arbitrary: e0)
  case 0
  then show ?case by (simp add: exponent_from.simps)
next
  case (Suc n)
  from Suc.IH[of "e0 + 1"] show ?case by (auto simp: exponent_from.simps)
qed

lemma exponent32_range: "- 126 \<le> exponent32 a \<and> exponent32 a \<le> 127"
  using exponent_from_range[of "- 126" 253 a] by (simp add: exponent32_def)

lemma quantum_pos: "0 < quantum a"
  by (simp add: quantum_def)

lemma round_even_of_int: "round_even (of_int n) = n"
  by (simp add: round_even_def)

lemma round_even_error: "\<bar>of_int (round_even t) - t\<bar> \<le> 1 / 2"
  unfolding round_even_def Let_def by (auto simp: abs_le_iff)

lemma round_even_eq: "\<bar>t - of_int n\<bar> < 1 / 2 \<Longrightarrow> round_even t = n"
proof -
  assume a: "\<bar>t - of_int n\<bar> < 1 / 2"
  have e: "\<bar>of_int (round_even t) - t\<bar> \<le> 1 / 2" by (rule round_even_error)
  from a[unfolded abs_less_iff] have a1: "t < of_int n + 1 / 2" and a2: "of_int n - 1 / 2 < t"
    by linarith+
  from e[unfolded abs_le_iff] have e1: "of_int (round_even t) \<le> t + 1 / 2"
    and e2: "t - 1 / 2 \<le> of_int (round_even t)"
    by linarith+
  from a1 e1 have "(of_int (round_even t) :: real) < of_int n + 1" by linarith
  then have "(of_int (round_even t) :: real) < of_int (n + 1)" by simp
  then have u: "round_even t < n + 1" by (simp only: of_int_less_iff)
  from a2 e2 have "(of_int n :: real) < of_int (round_even t) + 1" by linarith
  then have "(of_int n :: real) < of_int (round_even t + 1)" by simp
  then have l: "n < round_even t + 1" by (simp only: of_int_less_iff)
  from u l show ?thesis by simp
qed

lemma round_even_between:
  assumes "of_int lo \<le> t" "t \<le> of_int hi"
  shows "lo \<le> round_even t \<and> round_even t \<le> hi"
proof -
  have f: "lo \<le> \<lfloor>t\<rfloor>" using assms(1) by (simp add: le_floor_iff)
  have c: "\<lfloor>t\<rfloor> \<le> hi" using assms(2) by (simp add: floor_le_iff) 
  have s: "\<lfloor>t\<rfloor> + 1 \<le> hi" if "t \<noteq> of_int \<lfloor>t\<rfloor>"
  proof -
    have "of_int \<lfloor>t\<rfloor> \<le> t" by simp
    with that have "of_int \<lfloor>t\<rfloor> < t" by linarith
    with assms(2) have "(of_int \<lfloor>t\<rfloor> :: real) < of_int hi" by linarith
    then have "\<lfloor>t\<rfloor> < hi" by (simp only: of_int_less_iff)
    then show ?thesis by simp
  qed
  have two: "round_even t = \<lfloor>t\<rfloor> \<or> round_even t = \<lfloor>t\<rfloor> + 1"
    by (simp add: round_even_def Let_def)
  have int: "round_even t = \<lfloor>t\<rfloor>" if "t = of_int \<lfloor>t\<rfloor>"
    using round_even_of_int[of "\<lfloor>t\<rfloor>"] that by simp
  from two int consider "round_even t = \<lfloor>t\<rfloor>"
    | "round_even t = \<lfloor>t\<rfloor> + 1" "t \<noteq> of_int \<lfloor>t\<rfloor>"
    by blast
  then show ?thesis
  proof cases
    case 1
    with f c show ?thesis by simp
  next
    case 2
    with f s show ?thesis by simp
  qed
qed

lemma exponent_from_upper:
  "exponent_from n e0 a < e0 + int n \<Longrightarrow> a < 2 powi (exponent_from n e0 a + 1)"
proof (induction n arbitrary: e0)
  case 0
  then show ?case by (simp add: exponent_from.simps)
next
  case (Suc n)
  show ?case
  proof (cases "a < 2 powi (e0 + 1)")
    case True
    then show ?thesis by (simp add: exponent_from.simps)
  next
    case False
    with Suc.prems have "exponent_from n (e0 + 1) a < (e0 + 1) + int n"
      by (simp add: exponent_from.simps)
    from Suc.IH[OF this] False show ?thesis by (simp add: exponent_from.simps)
  qed
qed

lemma exponent_from_lower:
  "e0 < exponent_from n e0 a \<Longrightarrow> 2 powi (exponent_from n e0 a) \<le> a"
proof (induction n arbitrary: e0)
  case 0
  then show ?case by (simp add: exponent_from.simps)
next
  case (Suc n)
  show ?case
  proof (cases "a < 2 powi (e0 + 1)")
    case True
    with Suc.prems show ?thesis by (simp add: exponent_from.simps)
  next
    case False
    then have eq: "exponent_from (Suc n) e0 a = exponent_from n (e0 + 1) a"
      by (simp add: exponent_from.simps)
    show ?thesis
    proof (cases "e0 + 1 < exponent_from n (e0 + 1) a")
      case True
      from Suc.IH[OF this] eq show ?thesis by simp
    next
      case f: False
      with exponent_from_range[of "e0 + 1" n a] have "exponent_from n (e0 + 1) a = e0 + 1" by simp
      with False eq show ?thesis by simp
    qed
  qed
qed

lemma exponent32_upper: "exponent32 a < 127 \<Longrightarrow> a < 2 powi (exponent32 a + 1)"
  using exponent_from_upper[of 253 "- 126" a] by (simp add: exponent32_def)

lemma exponent32_lower: "- 126 < exponent32 a \<Longrightarrow> 2 powi (exponent32 a) \<le> a"
  using exponent_from_lower[of "- 126" 253 a] by (simp add: exponent32_def)

lemma float32_zero: "float32 0 = 0"
  by (simp add: float32_def)

lemma float32_error: "\<bar>float32 x - x\<bar> \<le> quantum \<bar>x\<bar> / 2"
proof (cases "x = 0")
  case True
  then show ?thesis using quantum_pos[of 0] by (simp add: float32_zero)
next
  case False
  let ?q = "quantum \<bar>x\<bar>" and ?n = "round_even (\<bar>x\<bar> / quantum \<bar>x\<bar>)"
  have q: "0 < ?q" by (rule quantum_pos)
  have sx: "\<bar>x\<bar> * sgn x = x"
    using mult_sgn_abs[of x] by (simp add: mult.commute)
  have "float32 x - x = sgn x * (of_int ?n * ?q - \<bar>x\<bar>)"
    by (simp add: float32_def algebra_simps sx)
  also have "of_int ?n * ?q - \<bar>x\<bar> = (of_int ?n - \<bar>x\<bar> / ?q) * ?q"
    using q by (simp add: field_simps)
  finally have "\<bar>float32 x - x\<bar> = \<bar>of_int ?n - \<bar>x\<bar> / ?q\<bar> * ?q"
    using False q by (simp add: abs_mult abs_sgn_eq)
  also have "\<dots> \<le> (1 / 2) * ?q"
    using round_even_error[of "\<bar>x\<bar> / ?q"] q by (intro mult_right_mono) auto
  finally show ?thesis by simp
qed

lemma float32_multiple:
  assumes "0 < y" "y = of_int m * quantum y"
  shows "float32 y = y"
proof -
  have "y / quantum y = of_int m"
    using assms(2) quantum_pos[of y] by (simp add: field_simps)
  then have "round_even (\<bar>y\<bar> / quantum \<bar>y\<bar>) = m"
    using assms(1) by (simp add: round_even_of_int)
  then show ?thesis
    using assms by (simp add: float32_def)
qed

lemma magnitude_fixed:
  assumes a: "0 < a"
  defines "y \<equiv> of_int (round_even (a / quantum a)) * quantum a"
  assumes y: "0 < y"
  shows "\<exists>m. y = of_int m * quantum y"
proof -
  let ?e = "exponent32 a" and ?n = "round_even (a / quantum a)"
  have q: "quantum a = 2 powi (?e - 23)" by (simp add: quantum_def)
  have qpos: "0 < quantum a" by (rule quantum_pos)
  have rng: "- 126 \<le> ?e" "?e \<le> 127" using exponent32_range[of a] by simp_all
  have split: "(2::real) powi k = 2 powi (k - j) * 2 powi j" for k j :: int
    by (simp flip: power_int_add)
  have upper: "y \<le> 2 powi (?e + 1)" if "?e < 127"
  proof -
    have "a < 2 powi (?e + 1)" using exponent32_upper[OF that] .
    also have "\<dots> = 2 powi 24 * quantum a" unfolding q using split[of "?e + 1" "?e - 23"] by simp
    finally have "a / quantum a \<le> of_int (2 ^ 24)" using qpos by (simp add: field_simps)
    with round_even_between[of 0 "a / quantum a" "2 ^ 24"] a qpos
    have "?n \<le> 2 ^ 24" by simp
    then have "(of_int ?n :: real) \<le> 2 ^ 24" by (metis of_int_le_iff of_int_numeral of_int_power)
    then have "y \<le> 2 ^ 24 * quantum a" unfolding y_def using qpos by (intro mult_right_mono) auto
    also have "\<dots> = 2 powi (?e + 1)" unfolding q using split[of "?e + 1" "?e - 23"] by simp
    finally show ?thesis .
  qed
  have lower: "2 powi ?e \<le> y" if "- 126 < ?e"
  proof -
    have e23: "(2::real) powi ?e = 2 powi 23 * quantum a"
      unfolding q using split[of "?e" "?e - 23"] by simp
    have "2 powi ?e \<le> a" using exponent32_lower[OF that] .
    then have "of_int (2 ^ 23) \<le> a / quantum a" using qpos by (simp add: e23 field_simps)
    with round_even_between[of "2 ^ 23" "a / quantum a" "\<lceil>a / quantum a\<rceil>"]
    have "2 ^ 23 \<le> ?n" by (simp add: le_of_int_ceiling)
    then have "(2 ^ 23 :: real) \<le> of_int ?n" by (metis of_int_le_iff of_int_numeral of_int_power)
    then have "2 ^ 23 * quantum a \<le> y" unfolding y_def using qpos by (intro mult_right_mono) auto
    then show ?thesis by (simp add: e23)
  qed
  show ?thesis
  proof (cases "?e = 127")
    case True
    then have "2 powi 127 \<le> y" using lower by simp
    then have "exponent32 y = 127" by (intro exponent32_eq) auto
    then have "quantum y = quantum a" using True by (simp add: quantum_def)
    then show ?thesis unfolding y_def by auto
  next
    case False
    with rng have lt: "?e < 127" by simp
    show ?thesis
    proof (cases "y < 2 powi (?e + 1)")
      case True
      have "exponent32 y = ?e"
      proof (cases "- 126 < ?e")
        case True
        from lower[OF this] \<open>y < 2 powi (?e + 1)\<close> rng show ?thesis
          by (intro exponent32_eq) auto
      next
        case False
        with rng have e: "?e = - 126" by simp
        with \<open>y < 2 powi (?e + 1)\<close> show ?thesis by (simp add: exponent32_low)
      qed
      then have "quantum y = quantum a" by (simp add: quantum_def)
      then show ?thesis unfolding y_def by auto
    next
      case False
      with upper[OF lt] have yeq: "y = 2 powi (?e + 1)" by simp
      have "(2::real) powi (?e + 1) < 2 powi (?e + 1 + 1)" by (intro power_int_strict_increasing) auto
      with yeq have "y < 2 powi (?e + 1 + 1) \<or> ?e + 1 = 127" by simp
      moreover have "2 powi (?e + 1) \<le> y" using yeq by simp
      ultimately have "exponent32 y = ?e + 1"
        using rng lt by (intro exponent32_eq) simp_all
      then have "quantum y = 2 powi (?e + 1 - 23)" by (simp add: quantum_def)
      moreover have "(2::real) powi (?e + 1) = 2 powi 23 * 2 powi (?e + 1 - 23)"
        using split[of "?e + 1" "?e + 1 - 23"] by simp
      ultimately have "y = of_int (2 ^ 23) * quantum y" using yeq by simp
      then show ?thesis by blast
    qed
  qed
qed

lemma float32_idempotent: "float32 (float32 x) = float32 x"
proof -
  define Y where "Y = of_int (round_even (\<bar>x\<bar> / quantum \<bar>x\<bar>)) * quantum \<bar>x\<bar>"
  have f: "float32 x = sgn x * Y" by (simp add: float32_def Y_def)
  have nonneg: "0 \<le> Y"
  proof -
    have "0 \<le> \<bar>x\<bar> / quantum \<bar>x\<bar>" using quantum_pos[of "\<bar>x\<bar>"] by simp
    with round_even_between[of 0 "\<bar>x\<bar> / quantum \<bar>x\<bar>" "\<lceil>\<bar>x\<bar> / quantum \<bar>x\<bar>\<rceil>"]
    have "0 \<le> round_even (\<bar>x\<bar> / quantum \<bar>x\<bar>)" by (simp add: le_of_int_ceiling)
    then show ?thesis using quantum_pos[of "\<bar>x\<bar>"] by (simp add: Y_def)
  qed
  show ?thesis
  proof (cases "x = 0 \<or> Y = 0")
    case True
    then have "float32 x = 0" using f by auto
    then show ?thesis by (simp add: float32_zero)
  next
    case False
    then have x: "x \<noteq> 0" and "Y \<noteq> 0" by blast+
    with nonneg have ypos: "0 < Y" by linarith
    from magnitude_fixed[of "\<bar>x\<bar>"] x ypos obtain m where m: "Y = of_int m * quantum Y"
      unfolding Y_def by auto
    have fy: "float32 Y = Y" using float32_multiple[OF ypos m] .
    have ab: "\<bar>float32 x\<bar> = Y" and sg: "sgn (float32 x) = sgn x"
      using x ypos by (simp_all add: f abs_mult sgn_mult abs_sgn_eq)
    have "float32 Y = sgn Y * (of_int (round_even (\<bar>Y\<bar> / quantum \<bar>Y\<bar>)) * quantum \<bar>Y\<bar>)"
      by (simp add: float32_def)
    with fy ypos have core: "of_int (round_even (Y / quantum Y)) * quantum Y = Y" by simp
    have "float32 (float32 x) = sgn x * Y"
      unfolding float32_def[of "float32 x"] ab sg core ..
    then show ?thesis by (simp add: f)
  qed
qed

lemma is_float32_float32: "is_float32 (float32 x)"
  by (simp add: is_float32_def float32_idempotent)

lemma float32_eq:
  assumes "0 < a" "- 126 \<le> e" "e \<le> 127" "2 powi e \<le> a" "a < 2 powi (e + 1)"
    and "\<bar>a / 2 powi (e - 23) - of_int n\<bar> < 1 / 2"
  shows "float32 a = of_int n * 2 powi (e - 23)" and "float32 (- a) = - (of_int n * 2 powi (e - 23))"
proof -
  have e: "exponent32 a = e" using assms by (intro exponent32_eq) auto
  then have q: "quantum a = 2 powi (e - 23)" by (simp add: quantum_def)
  have n: "round_even (a / 2 powi (e - 23)) = n" using assms(6) by (rule round_even_eq)
  show "float32 a = of_int n * 2 powi (e - 23)" "float32 (- a) = - (of_int n * 2 powi (e - 23))"
    using assms(1) by (simp_all add: float32_def q n)
qed

lemma float32_minus: "float32 (- x) = - float32 x"
  by (simp add: float32_def sgn_minus)

lemma float32_dyadic:
  assumes "0 < m" "m < 2 ^ 24" "- 149 \<le> k"
  shows "float32 (of_int m * 2 powi k) = of_int m * 2 powi k"
    and "float32 (- (of_int m * 2 powi k)) = - (of_int m * 2 powi k)"
proof -
  define a :: real where "a = of_int m * 2 powi k"
  have apos: "0 < a" using assms(1) by (simp add: a_def)
  let ?e = "exponent32 a"
  have rng: "- 126 \<le> ?e" using exponent32_range[of a] by simp
  have le: "?e \<le> k + 23"
  proof (cases "- 126 < ?e")
    case True
    have "(of_int m :: real) < 2 ^ 24" using assms(2) by (metis of_int_less_iff of_int_numeral of_int_power)
    then have "a < 2 ^ 24 * 2 powi k" unfolding a_def by (intro mult_strict_right_mono) auto
    also have "\<dots> = 2 powi (k + 24)" by (simp add: power_int_add)
    finally have "2 powi ?e < (2::real) powi (k + 24)" using exponent32_lower[OF True] by simp
    have "?e < k + 24"
    proof (rule ccontr)
      assume "\<not> ?e < k + 24"
      then have "(2::real) powi (k + 24) \<le> 2 powi ?e" by (intro power_int_increasing) auto
      with \<open>2 powi ?e < (2::real) powi (k + 24)\<close> show False by simp
    qed
    then show ?thesis by simp
  next
    case False
    with rng assms(3) show ?thesis by simp
  qed
  define j where "j = nat (k + 23 - ?e)"
  have "(2::real) powi k = 2 powi int j * 2 powi (?e - 23)"
    using le by (simp add: j_def flip: power_int_add)
  then have "a = of_int (m * 2 ^ j) * quantum a"
    by (simp add: a_def quantum_def)
  from float32_multiple[OF apos this] show "float32 (of_int m * 2 powi k) = of_int m * 2 powi k"
    by (simp add: a_def)
  then show "float32 (- (of_int m * 2 powi k)) = - (of_int m * 2 powi k)"
    by (simp add: float32_minus)
qed

section \<open>Properties of the training loop\<close>

lemma map2_zero_add:
  "length xs = length ys \<Longrightarrow> list_all is_float32 ys \<Longrightarrow>
     map2 (\<lambda>u v. float32 (u + v)) (map (\<lambda>_. 0) xs) ys = ys"
  by (induction xs ys rule: list_induct2) (auto simp: is_float32_def)

lemma batch_gradient_float32: "list_all is_float32 (data (batch_gradient F ps x y i p))"
  by (simp add: batch_gradient_def list_all_iff is_float32_float32)

lemma accumulate_cleared:
  assumes "wf_param p"
  shows "accumulate (map_option zeros_like (p_grad p)) (batch_gradient F ps x y i (p_data p))
         = batch_gradient F ps x y i (p_data p)"
proof (cases "p_grad p")
  case None
  then show ?thesis by (simp add: accumulate_def)
next
  case (Some g)
  with assms have sh: "shape g = shape (p_data p)" and len: "length (data g) = length (data (p_data p))"
    by (simp_all add: wf_param_def)
  let ?b = "batch_gradient F ps x y i (p_data p)"
  have "length (data g) = length (data ?b)" by (simp add: len batch_gradient_def)
  from map2_zero_add[OF this batch_gradient_float32]
  have "map2 (\<lambda>u v. float32 (u + v)) (map (\<lambda>_. 0) (data g)) (data ?b) = data ?b" .
  moreover have "shape ?b = shape g" by (simp add: sh batch_gradient_def)
  ultimately show ?thesis using Some
    by (simp add: accumulate_def tensor_add_def zeros_like_def)
qed

lemma length_stepped: "length (stepped F s x y) = length (params s)"
  by (simp add: stepped_def)

lemma nth_stepped_in:
  "i < length (params s) \<Longrightarrow> in_graph F i \<Longrightarrow>
     stepped F s x y ! i =
       \<lparr>p_data = sgd_update (lr s) (p_data (params s ! i))
                   (batch_gradient F (map p_data (params s)) x y i (p_data (params s ! i))),
        p_grad = Some (batch_gradient F (map p_data (params s)) x y i (p_data (params s ! i)))\<rparr>"
  by (simp add: stepped_def)

lemma nth_stepped_out:
  "i < length (params s) \<Longrightarrow> \<not> in_graph F i \<Longrightarrow>
     stepped F s x y ! i =
       (case p_grad (params s ! i) of
          None \<Rightarrow> params s ! i
        | Some g \<Rightarrow>
            \<lparr>p_data = sgd_update (lr s) (p_data (params s ! i)) (zeros_like g),
             p_grad = Some (zeros_like g)\<rparr>)"
  by (simp add: stepped_def)

lemma training_pass_closed:
  assumes "wf_trainer s"
  shows "training_pass F s x y =
     (criterion_fn F (forward_fn F (map p_data (params s)) x) y,
      \<lparr>params = stepped F s x y, lr = lr s,
       calls = calls s @ [ZeroGrad, Forward, Criterion, Backward, OptimStep]\<rparr>)"
proof -
  define ps where "ps = map p_data (params s)"
  define l :: "'b loss" where
    "l = \<lparr>item = criterion_fn F (forward_fn F ps x) y, loss_params = ps,
          loss_images = x, loss_labels = y\<rparr>"
  define s3 where "s3 = (zero_grad s)\<lparr>calls := calls s @ [ZeroGrad, Forward, Criterion]\<rparr>"
  have tp: "training_pass F s x y = (item l, optimizer_step (backward F l s3))"
    by (simp add: training_pass_def forward_def criterion_def zero_grad_def Let_def
        l_def ps_def s3_def o_def)
  have wf: "wf_param (params s ! i)" if "i < length (params s)" for i
    using assms that by (simp add: wf_trainer_def list_all_length)
  have len3: "length (params s3) = length (params s)"
    by (simp add: s3_def zero_grad_def)
  have p3: "params s3 ! i = (params s ! i)\<lparr>p_grad := map_option zeros_like (p_grad (params s ! i))\<rparr>"
    if "i < length (params s)" for i
    using that by (simp add: s3_def zero_grad_def)
  have lr3: "lr s3 = lr s" by (simp add: s3_def zero_grad_def)
  have par: "params (optimizer_step (backward F l s3)) = stepped F s x y"
  proof (rule nth_equalityI)
    show "length (params (optimizer_step (backward F l s3))) = length (stepped F s x y)"
      by (simp add: optimizer_step_def backward_def stepped_def len3)
  next
    fix i assume "i < length (params (optimizer_step (backward F l s3)))"
    then have i: "i < length (params s)"
      by (simp add: optimizer_step_def backward_def len3)
    show "params (optimizer_step (backward F l s3)) ! i = stepped F s x y ! i"
    proof (cases "in_graph F i")
      case True
      have g: "accumulate (map_option zeros_like (p_grad (params s ! i)))
               (grad_tensor F l i (p_data (params s ! i)))
             = batch_gradient F ps x y i (p_data (params s ! i))"
        using accumulate_cleared[OF wf[OF i]] by (simp add: grad_tensor_def l_def)
      show ?thesis
        using i True
        by (simp add: optimizer_step_def backward_def nth_stepped_in len3 p3 g lr3 ps_def)
    next
      case False
      show ?thesis
      proof (cases "p_grad (params s ! i)")
        case None
        then have "(params s ! i)\<lparr>p_grad := None\<rparr> = params s ! i" by (cases "params s ! i") simp
        with i False None show ?thesis
          by (simp add: optimizer_step_def backward_def nth_stepped_out len3 p3)
      next
        case (Some g)
        with i False show ?thesis
          by (simp add: optimizer_step_def backward_def nth_stepped_out len3 p3 lr3)
      qed
    qed
  qed
  have "optimizer_step (backward F l s3) =
      \<lparr>params = stepped F s x y, lr = lr s,
       calls = calls s @ [ZeroGrad, Forward, Criterion, Backward, OptimStep]\<rparr>"
    using par by (simp add: optimizer_step_def backward_def s3_def zero_grad_def)
  then show ?thesis using tp by (simp add: l_def ps_def)
qed

lemma no_zero_grad_fresh:
  assumes "fresh s"
  shows "training_pass_no_zero_grad F s x y =
     (criterion_fn F (forward_fn F (map p_data (params s)) x) y,
      \<lparr>params = stepped F s x y, lr = lr s,
       calls = calls s @ [Forward, Criterion, Backward, OptimStep]\<rparr>)"
proof -
  define ps where "ps = map p_data (params s)"
  define l :: "'b loss" where
    "l = \<lparr>item = criterion_fn F (forward_fn F ps x) y, loss_params = ps,
          loss_images = x, loss_labels = y\<rparr>"
  define s3 where "s3 = s\<lparr>calls := calls s @ [Forward, Criterion]\<rparr>"
  have tp: "training_pass_no_zero_grad F s x y = (item l, optimizer_step (backward F l s3))"
    by (simp add: training_pass_no_zero_grad_def forward_def criterion_def Let_def
        l_def ps_def s3_def)
  have n: "p_grad (params s ! i) = None" if "i < length (params s)" for i
    using assms that by (simp add: fresh_def list_all_length)
  have par: "params (optimizer_step (backward F l s3)) = stepped F s x y"
  proof (rule nth_equalityI)
    show "length (params (optimizer_step (backward F l s3))) = length (stepped F s x y)"
      by (simp add: optimizer_step_def backward_def stepped_def s3_def)
  next
    fix i assume "i < length (params (optimizer_step (backward F l s3)))"
    then have i: "i < length (params s)"
      by (simp add: optimizer_step_def backward_def s3_def)
    show "params (optimizer_step (backward F l s3)) ! i = stepped F s x y ! i"
    proof (cases "in_graph F i")
      case True
      with i n[OF i] show ?thesis
        by (simp add: optimizer_step_def backward_def nth_stepped_in s3_def accumulate_def
            grad_tensor_def l_def ps_def)
    next
      case False
      with i n[OF i] show ?thesis
        by (simp add: optimizer_step_def backward_def nth_stepped_out s3_def)
    qed
  qed
  have "optimizer_step (backward F l s3) =
      \<lparr>params = stepped F s x y, lr = lr s,
       calls = calls s @ [Forward, Criterion, Backward, OptimStep]\<rparr>"
    using par by (simp add: optimizer_step_def backward_def s3_def)
  then show ?thesis using tp by (simp add: l_def ps_def)
qed

lemma no_zero_grad_nth:
  assumes "i < length (params s)" "in_graph F i"
  shows "p_grad (params (snd (training_pass_no_zero_grad F s x y)) ! i)
         = Some (accumulate (p_grad (params s ! i))
                   (batch_gradient F (map p_data (params s)) x y i (p_data (params s ! i))))"
    and "length (params (snd (training_pass_no_zero_grad F s x y))) = length (params s)"
proof -
  define ps where "ps = map p_data (params s)"
  define l :: "'b loss" where
    "l = \<lparr>item = criterion_fn F (forward_fn F ps x) y, loss_params = ps,
          loss_images = x, loss_labels = y\<rparr>"
  define s3 where "s3 = s\<lparr>calls := calls s @ [Forward, Criterion]\<rparr>"
  have tp: "training_pass_no_zero_grad F s x y = (item l, optimizer_step (backward F l s3))"
    by (simp add: training_pass_no_zero_grad_def forward_def criterion_def Let_def
        l_def ps_def s3_def)
  show "p_grad (params (snd (training_pass_no_zero_grad F s x y)) ! i)
         = Some (accumulate (p_grad (params s ! i))
                   (batch_gradient F (map p_data (params s)) x y i (p_data (params s ! i))))"
    unfolding tp snd_conv using assms
    by (simp add: optimizer_step_def backward_def s3_def grad_tensor_def l_def ps_def)
  show "length (params (snd (training_pass_no_zero_grad F s x y))) = length (params s)"
    unfolding tp snd_conv by (simp add: optimizer_step_def backward_def s3_def)
qed

lemma nth_batch_gradient:
  "k < length (data p) \<Longrightarrow>
     data (batch_gradient F ps x y i p) ! k = float32 (autograd_fn F ps x y i k)"
  by (simp add: batch_gradient_def)

lemma length_batch_gradient: "length (data (batch_gradient F ps x y i p)) = length (data p)"
  by (simp add: batch_gradient_def)

lemma shape_batch_gradient: "shape (batch_gradient F ps x y i p) = shape p"
  by (simp add: batch_gradient_def)

lemma nth_sgd_update:
  "k < length (data w) \<Longrightarrow> k < length (data g) \<Longrightarrow>
     data (sgd_update \<alpha> w g) ! k = float32 (data w ! k - float32 \<alpha> * data g ! k)"
  by (simp add: sgd_update_def)

lemma length_sgd_update:
  "length (data g) = length (data w) \<Longrightarrow> length (data (sgd_update \<alpha> w g)) = length (data w)"
  by (simp add: sgd_update_def)

lemma shape_sgd_update: "shape (sgd_update \<alpha> w g) = shape w"
  by (simp add: sgd_update_def)

lemma map2_update_zeros:
  "length xs = length gs \<Longrightarrow> list_all is_float32 xs \<Longrightarrow>
     map2 (\<lambda>x d. float32 (x - a * d)) xs (map (\<lambda>_. 0) gs) = xs"
  by (induction xs gs rule: list_induct2) (auto simp: is_float32_def)

lemma sgd_update_zeros:
  assumes "length (data g) = length (data w)" "list_all is_float32 (data w)"
  shows "sgd_update \<alpha> w (zeros_like g) = w"
  using map2_update_zeros[of "data w" "data g" "float32 \<alpha>"] assms
  by (simp add: sgd_update_def zeros_like_def)

lemma stepped_out_data:
  assumes "wf_trainer s" "float32_params s" "i < length (params s)" "\<not> in_graph F i"
  shows "p_data (stepped F s x y ! i) = p_data (params s ! i)"
    and "p_grad (stepped F s x y ! i) = map_option zeros_like (p_grad (params s ! i))"
proof -
  have wf: "wf_param (params s ! i)" using assms(1,3) by (simp add: wf_trainer_def list_all_length)
  have fl: "list_all is_float32 (data (p_data (params s ! i)))"
    using assms(2,3) by (simp add: float32_params_def list_all_length)
  show "p_data (stepped F s x y ! i) = p_data (params s ! i)"
  proof (cases "p_grad (params s ! i)")
    case None
    with assms show ?thesis by (simp add: nth_stepped_out)
  next
    case (Some g)
    with wf have "length (data g) = length (data (p_data (params s ! i)))"
      by (simp add: wf_param_def)
    from sgd_update_zeros[OF this fl] Some assms show ?thesis by (simp add: nth_stepped_out)
  qed
  show "p_grad (stepped F s x y ! i) = map_option zeros_like (p_grad (params s ! i))"
    using assms by (cases "p_grad (params s ! i)") (simp_all add: nth_stepped_out)
qed

subsection \<open>Concrete runs of the small model\<close>

lemma float32_values:
  "float32 1 = 1" "float32 2 = 2" "float32 5 = 5" "float32 12 = 12" "float32 24 = 24"
  "float32 36 = 36" "float32 (1 / 4) = 1 / 4" "float32 (5 / 4) = 5 / 4"
  "float32 (1 / 32) = 1 / 32" "float32 (3 / 549755813888) = 3 / 549755813888"
  using float32_dyadic(1)[of 1 0] float32_dyadic(1)[of 2 0] float32_dyadic(1)[of 5 0]
    float32_dyadic(1)[of 12 0] float32_dyadic(1)[of 24 0] float32_dyadic(1)[of 36 0]
    float32_dyadic(1)[of 1 "- 2"] float32_dyadic(1)[of 5 "- 2"] float32_dyadic(1)[of 1 "- 5"]
    float32_dyadic(1)[of 3 "- 39"]
  by (simp_all add: power_int_minus)

lemma float32_absorbed:
  "float32 (17592186044413 / 17592186044416) = 1"
  "float32 (35184372088829 / 17592186044416) = 2"
  "float32 (13194139533315 / 549755813888) = 24"
  using float32_eq(1)[of "1 - 3 / 2 ^ 44" "- 1" "2 ^ 24"]
    float32_eq(1)[of "2 - 3 / 2 ^ 44" 0 "2 ^ 24"]
    float32_eq(1)[of "3 / 2 ^ 39 + 24" 4 "3 * 2 ^ 22"]
  by (simp_all add: power_int_minus)

lemmas float32_simps = float32_zero float32_values float32_absorbed

lemmas toy_defs = toy_def toy_forward_def toy_criterion_def toy_autograd_def toy_in_graph_def
  toy_trainer_def toy_images_def toy_blank_def toy_faint_def

lemmas pass_defs = training_pass_def training_pass_no_zero_grad_def zero_grad_def forward_def
  criterion_def backward_def optimizer_step_def grad_tensor_def batch_gradient_def accumulate_def
  tensor_add_def sgd_update_def zeros_like_def Let_def

lemma wf_toy_trainer: "wf_trainer toy_trainer"
  by (simp add: wf_trainer_def wf_param_def toy_trainer_def)

lemma wf_toy_trainer_stale: "wf_trainer toy_trainer_stale"
  by (simp add: wf_trainer_def wf_param_def toy_trainer_stale_def)

lemma float32_toy_trainer: "float32_params toy_trainer"
  by (simp add: float32_params_def is_float32_def toy_trainer_def float32_values)

lemma float32_toy_trainer_stale: "float32_params toy_trainer_stale"
  by (simp add: float32_params_def is_float32_def toy_trainer_stale_def float32_values)

lemma fresh_toy: "fresh toy_trainer"
  by (simp add: fresh_def toy_trainer_def)

lemma first_pass: "training_pass toy toy_trainer toy_images 0 = (36, after_first)"
  by (simp add: pass_defs toy_defs after_first_def float32_simps)

lemma first_pass_no_zero_grad:
  "training_pass_no_zero_grad toy toy_trainer toy_images 0
     = (36, after_first\<lparr>calls := [Forward, Criterion, Backward, OptimStep]\<rparr>)"
  by (simp add: pass_defs toy_defs after_first_def float32_simps)

lemma stale_pass: "training_pass toy toy_trainer_stale toy_images 0 =
   (36,
    \<lparr>params = [\<lparr>p_data = \<lparr>shape = [2], data = [1 / 4, 5 / 4]\<rparr>,
                 p_grad = Some \<lparr>shape = [2], data = [24, 24]\<rparr>\<rparr>,
                \<lparr>p_data = \<lparr>shape = [1], data = [5]\<rparr>,
                 p_grad = Some \<lparr>shape = [1], data = [0]\<rparr>\<rparr>],
      lr = 1 / 32,
      calls = [ZeroGrad, Forward, Criterion, Backward, OptimStep,
               ZeroGrad, Forward, Criterion, Backward, OptimStep]\<rparr>)"
  by (simp add: pass_defs toy_def toy_forward_def toy_criterion_def toy_autograd_def
      toy_in_graph_def toy_images_def toy_trainer_stale_def float32_simps)

lemma faint_pass: "training_pass toy toy_trainer toy_faint 0 =
   (9 / 2 ^ 40,
    \<lparr>params = [\<lparr>p_data = \<lparr>shape = [2], data = [1, 2]\<rparr>,
                 p_grad = Some \<lparr>shape = [2], data = [3 / 2 ^ 39, 3 / 2 ^ 39]\<rparr>\<rparr>,
                \<lparr>p_data = \<lparr>shape = [1], data = [5]\<rparr>, p_grad = None\<rparr>],
      lr = 1 / 32, calls = [ZeroGrad, Forward, Criterion, Backward, OptimStep]\<rparr>)"
  by (simp add: pass_defs toy_defs float32_simps)

lemma faint_pass_no_zero_grad: "training_pass_no_zero_grad toy toy_trainer toy_faint 0 =
   (9 / 2 ^ 40,
    \<lparr>params = [\<lparr>p_data = \<lparr>shape = [2], data = [1, 2]\<rparr>,
                 p_grad = Some \<lparr>shape = [2], data = [3 / 2 ^ 39, 3 / 2 ^ 39]\<rparr>\<rparr>,
                \<lparr>p_data = \<lparr>shape = [1], data = [5]\<rparr>, p_grad = None\<rparr>],
      lr = 1 / 32, calls = [Forward, Criterion, Backward, OptimStep]\<rparr>)"
  by (simp add: pass_defs toy_defs float32_simps)

lemma blank_pass: "training_pass toy toy_trainer toy_blank 1 =
   (1,
    \<lparr>params = [\<lparr>p_data = \<lparr>shape = [2], data = [1, 2]\<rparr>,
                 p_grad = Some \<lparr>shape = [2], data = [0, 0]\<rparr>\<rparr>,
                \<lparr>p_data = \<lparr>shape = [1], data = [5]\<rparr>, p_grad = None\<rparr>],
      lr = 1 / 32, calls = [ZeroGrad, Forward, Criterion, Backward, OptimStep]\<rparr>)"
  by (simp add: pass_defs toy_defs float32_simps)

lemma blank_pass_no_zero_grad: "training_pass_no_zero_grad toy toy_trainer toy_blank 1 =
   (1,
    \<lparr>params = [\<lparr>p_data = \<lparr>shape = [2], data = [1, 2]\<rparr>,
                 p_grad = Some \<lparr>shape = [2], data = [0, 0]\<rparr>\<rparr>,
                \<lparr>p_data = \<lparr>shape = [1], data = [5]\<rparr>, p_grad = None\<rparr>],
      lr = 1 / 32, calls = [Forward, Criterion, Backward, OptimStep]\<rparr>)"
  by (simp add: pass_defs toy_defs float32_simps)

lemma second_pass_loss: "fst (training_pass toy after_first toy_blank 1) = 1"
  by (simp add: pass_defs toy_def toy_forward_def toy_criterion_def toy_autograd_def
      toy_in_graph_def toy_blank_def after_first_def)

lemma second_pass_grads:
  "map p_grad (params (snd (training_pass toy after_first toy_images 0)))
     = [Some \<lparr>shape = [2], data = [12, 12]\<rparr>, None]"
  by (simp add: pass_defs toy_def toy_forward_def toy_criterion_def toy_autograd_def
      toy_in_graph_def toy_images_def after_first_def float32_simps)

lemma second_pass_no_zero_grad_grads:
  "map p_grad (params (snd (training_pass_no_zero_grad toy
                              (after_first\<lparr>calls := [Forward, Criterion, Backward, OptimStep]\<rparr>)
                              toy_images 0)))
     = [Some \<lparr>shape = [2], data = [36, 36]\<rparr>, None]"
  by (simp add: pass_defs toy_def toy_forward_def toy_criterion_def toy_autograd_def
      toy_in_graph_def toy_images_def after_first_def float32_simps)

lemma flatten_toy_images: "flatten_images toy_images = Inr toy_images"
  by (simp add: flatten_images_def view_def infer_size_def numel_def toy_images_def)

lemma flatten_toy_blank: "flatten_images toy_blank = Inr toy_blank"
  by (simp add: flatten_images_def view_def infer_size_def numel_def toy_blank_def)

lemma toy_epoch_average: "epoch_averages toy toy_trainer [[(toy_images, 0), (toy_blank, 1)]] = [37 / 2]"
proof -
  obtain l s2 where b: "training_pass toy after_first toy_blank 1 = (l, s2)"
    by (cases "training_pass toy after_first toy_blank 1")
  with second_pass_loss have l: "l = 1" by simp
  show ?thesis
    by (simp add: flatten_toy_images flatten_toy_blank first_pass b l)
qed

text \<open>
  Claim C3. A training step on a batch of inputs and labels makes exactly five framework
  calls, in this order: it clears the gradients, evaluates the model forward, computes
  the scalar loss of the output against the labels, propagates gradients backward into
  every parameter that takes part in the output, and applies one optimizer update. The
  loss is that of the parameters as they were before the step. After the step, entry
  \<open>k\<close> of the gradient of such a parameter is the derivative of the loss of this batch
  with respect to that entry, taken at the parameters before the step, and entry \<open>k\<close> of
  the parameter is \<open>W\<^sub>k - lr * grad\<^sub>k\<close>, both in single precision; shapes, the learning
  rate and the number of parameters are as before. A parameter outside the computation
  keeps its tensor, and its gradient, if it had one, is zeros. Nothing else has changed.
  The demonstration step is the same pass on the resized batch.
\<close>

theorem training_pass_sequence:
  assumes "wf_trainer s" and "float32_params s"
  shows "calls (snd (training_pass F s images labels))
           = calls s @ [ZeroGrad, Forward, Criterion, Backward, OptimStep]
       \<and> fst (training_pass F s images labels)
           = criterion_fn F (forward_fn F (map p_data (params s)) images) labels
       \<and> lr (snd (training_pass F s images labels)) = lr s
       \<and> length (params (snd (training_pass F s images labels))) = length (params s)
       \<and> (\<forall>i < length (params s).
            shape (p_data (params (snd (training_pass F s images labels)) ! i))
              = shape (p_data (params s ! i))
          \<and> length (data (p_data (params (snd (training_pass F s images labels)) ! i)))
              = length (data (p_data (params s ! i)))
          \<and> (in_graph F i \<longrightarrow>
               (\<exists>g. p_grad (params (snd (training_pass F s images labels)) ! i) = Some g
                  \<and> shape g = shape (p_data (params s ! i))
                  \<and> length (data g) = length (data (p_data (params s ! i)))
                  \<and> (\<forall>k < length (data (p_data (params s ! i))).
                        data g ! k
                          = float32 (autograd_fn F (map p_data (params s)) images labels i k)
                      \<and> data (p_data (params (snd (training_pass F s images labels)) ! i)) ! k
                          = float32 (data (p_data (params s ! i)) ! k
                                       - float32 (lr s) * data g ! k))))
          \<and> (\<not> in_graph F i \<longrightarrow>
               p_data (params (snd (training_pass F s images labels)) ! i) = p_data (params s ! i)
             \<and> p_grad (params (snd (training_pass F s images labels)) ! i)
                 = map_option zeros_like (p_grad (params s ! i))))
       \<and> single_step junk F s images labels
           = training_pass F s (resize_images junk images) labels"
proof -
  note tp = training_pass_closed[OF assms(1), of F images labels]
  have demo: "single_step junk F s images labels
           = training_pass F s (resize_images junk images) labels"
    by (simp add: single_step_def training_pass_def Let_def)
  have each: "shape (p_data (stepped F s images labels ! i)) = shape (p_data (params s ! i))
          \<and> length (data (p_data (stepped F s images labels ! i)))
              = length (data (p_data (params s ! i)))
          \<and> (in_graph F i \<longrightarrow>
               (\<exists>g. p_grad (stepped F s images labels ! i) = Some g
                  \<and> shape g = shape (p_data (params s ! i))
                  \<and> length (data g) = length (data (p_data (params s ! i)))
                  \<and> (\<forall>k < length (data (p_data (params s ! i))).
                        data g ! k
                          = float32 (autograd_fn F (map p_data (params s)) images labels i k)
                      \<and> data (p_data (stepped F s images labels ! i)) ! k
                          = float32 (data (p_data (params s ! i)) ! k
                                       - float32 (lr s) * data g ! k))))
          \<and> (\<not> in_graph F i \<longrightarrow>
               p_data (stepped F s images labels ! i) = p_data (params s ! i)
             \<and> p_grad (stepped F s images labels ! i)
                 = map_option zeros_like (p_grad (params s ! i)))"
    if i: "i < length (params s)" for i
  proof (cases "in_graph F i")
    case True
    let ?g = "batch_gradient F (map p_data (params s)) images labels i (p_data (params s ! i))"
    have "p_grad (stepped F s images labels ! i) = Some ?g
          \<and> shape ?g = shape (p_data (params s ! i))
          \<and> length (data ?g) = length (data (p_data (params s ! i)))
          \<and> (\<forall>k < length (data (p_data (params s ! i))).
                data ?g ! k = float32 (autograd_fn F (map p_data (params s)) images labels i k)
              \<and> data (p_data (stepped F s images labels ! i)) ! k
                  = float32 (data (p_data (params s ! i)) ! k - float32 (lr s) * data ?g ! k))"
      using i True
      by (simp add: nth_stepped_in nth_batch_gradient length_batch_gradient shape_batch_gradient
          nth_sgd_update)
    then show ?thesis
      using i True
      by (simp add: nth_stepped_in shape_sgd_update length_sgd_update length_batch_gradient)
  next
    case False
    from stepped_out_data[OF assms i False, of images labels] False show ?thesis by simp
  qed
  show ?thesis
    unfolding tp using demo each by (simp add: length_stepped tp)
qed

theorem training_pass_sequence_witness:
  "wf_trainer toy_trainer_stale \<and> float32_params toy_trainer_stale
   \<and> in_graph toy 0 \<and> \<not> in_graph toy 1
   \<and> calls (snd (training_pass toy toy_trainer_stale toy_images 0))
       = calls toy_trainer_stale @ [ZeroGrad, Forward, Criterion, Backward, OptimStep]
   \<and> fst (training_pass toy toy_trainer_stale toy_images 0) = 36
   \<and> map p_grad (params toy_trainer_stale)
       = [Some \<lparr>shape = [2], data = [5, 7]\<rparr>, Some \<lparr>shape = [1], data = [3]\<rparr>]
   \<and> map p_grad (params (snd (training_pass toy toy_trainer_stale toy_images 0)))
       = [Some \<lparr>shape = [2], data = [24, 24]\<rparr>, Some \<lparr>shape = [1], data = [0]\<rparr>]
   \<and> map p_data (params toy_trainer_stale)
       = [\<lparr>shape = [2], data = [1, 2]\<rparr>, \<lparr>shape = [1], data = [5]\<rparr>]
   \<and> map p_data (params (snd (training_pass toy toy_trainer_stale toy_images 0)))
       = [\<lparr>shape = [2], data = [1 - 1 / 32 * 24, 2 - 1 / 32 * 24]\<rparr>, \<lparr>shape = [1], data = [5]\<rparr>]"
proof -
  note T = training_pass_sequence[OF wf_toy_trainer_stale float32_toy_trainer_stale,
      of toy toy_images 0 "\<lambda>_. 0"]
  have c: "calls (snd (training_pass toy toy_trainer_stale toy_images 0))
       = calls toy_trainer_stale @ [ZeroGrad, Forward, Criterion, Backward, OptimStep]"
    using T by (rule conjunct1)
  have rest: "in_graph toy 0 \<and> \<not> in_graph toy 1
   \<and> fst (training_pass toy toy_trainer_stale toy_images 0) = 36
   \<and> map p_grad (params toy_trainer_stale)
       = [Some \<lparr>shape = [2], data = [5, 7]\<rparr>, Some \<lparr>shape = [1], data = [3]\<rparr>]
   \<and> map p_grad (params (snd (training_pass toy toy_trainer_stale toy_images 0)))
       = [Some \<lparr>shape = [2], data = [24, 24]\<rparr>, Some \<lparr>shape = [1], data = [0]\<rparr>]
   \<and> map p_data (params toy_trainer_stale)
       = [\<lparr>shape = [2], data = [1, 2]\<rparr>, \<lparr>shape = [1], data = [5]\<rparr>]
   \<and> map p_data (params (snd (training_pass toy toy_trainer_stale toy_images 0)))
       = [\<lparr>shape = [2], data = [1 - 1 / 32 * 24, 2 - 1 / 32 * 24]\<rparr>, \<lparr>shape = [1], data = [5]\<rparr>]"
    unfolding stale_pass by (simp add: toy_def toy_in_graph_def toy_trainer_stale_def)
  show ?thesis using wf_toy_trainer_stale float32_toy_trainer_stale c rest by (intro conjI) simp_all
qed

lemma float32_params_cong:
  assumes "map p_data (params s) = map p_data (params s')" and "float32_params s"
  shows "float32_params s'"
proof -
  have "float32_params t \<longleftrightarrow> list_all (\<lambda>d. list_all is_float32 (data d)) (map p_data (params t))"
    for t by (simp add: float32_params_def list_all_iff)
  with assms show ?thesis by simp
qed

lemma data_nth_cong:
  assumes "map p_data (params s) = map p_data (params s')" and "i < length (params s)"
  shows "p_data (params s ! i) = p_data (params s' ! i)" and "i < length (params s')"
proof -
  from assms(1) have len: "length (params s) = length (params s')"
    by (rule map_eq_imp_length_eq)
  with assms(2) show i': "i < length (params s')" by simp
  from assms(1) have "map p_data (params s) ! i = map p_data (params s') ! i" by simp
  with assms(2) i' show "p_data (params s ! i) = p_data (params s' ! i)" by simp
qed

lemma stepped_cong_in:
  assumes d: "map p_data (params s) = map p_data (params s')" and r: "lr s = lr s'"
    and i: "i < length (params s)" and g: "in_graph F i"
  shows "stepped F s x y ! i = stepped F s' x y ! i"
  using data_nth_cong[OF d i] i g r by (simp add: nth_stepped_in d)

lemma stepped_data_cong:
  assumes wf: "wf_trainer s" and wf': "wf_trainer s'" and fl: "float32_params s"
    and d: "map p_data (params s) = map p_data (params s')" and r: "lr s = lr s'"
  shows "map p_data (stepped F s x y) = map p_data (stepped F s' x y)"
proof (rule nth_equalityI)
  from d have len: "length (params s) = length (params s')" by (rule map_eq_imp_length_eq)
  then show "length (map p_data (stepped F s x y)) = length (map p_data (stepped F s' x y))"
    by (simp add: length_stepped)
  fix i assume "i < length (map p_data (stepped F s x y))"
  then have i: "i < length (params s)" by (simp add: length_stepped)
  note n = data_nth_cong[OF d i]
  note fl' = float32_params_cong[OF d fl]
  have "p_data (stepped F s x y ! i) = p_data (stepped F s' x y ! i)"
  proof (cases "in_graph F i")
    case True
    from stepped_cong_in[OF d r i True] show ?thesis by simp
  next
    case False
    from stepped_out_data(1)[OF wf fl i False] stepped_out_data(1)[OF wf' fl' n(2) False] n(1)
    show ?thesis by simp
  qed
  with i n(2) show "map p_data (stepped F s x y) ! i = map p_data (stepped F s' x y) ! i"
    by (simp add: length_stepped)
qed

lemma stepped_cong_all:
  assumes d: "map p_data (params s) = map p_data (params s')" and r: "lr s = lr s'"
    and g: "\<forall>i < length (params s). in_graph F i"
  shows "stepped F s x y = stepped F s' x y"
proof (rule nth_equalityI)
  from d have len: "length (params s) = length (params s')" by (rule map_eq_imp_length_eq)
  then show "length (stepped F s x y) = length (stepped F s' x y)"
    by (simp add: length_stepped)
  fix i assume "i < length (stepped F s x y)"
  then have i: "i < length (params s)" by (simp add: length_stepped)
  with g have "in_graph F i" by simp
  from stepped_cong_in[OF d r i this] show "stepped F s x y ! i = stepped F s' x y ! i" .
qed

text \<open>
  Claim C9. Two training steps that start from the same parameter tensors, the same
  learning rate and the same batch of inputs and labels, and from whatever gradients
  earlier passes have left in \<^verbatim>\<open>p.grad\<close>, return the same loss and end with the same
  parameter tensors: the step clears the gradients before the backward pass. For every
  parameter the backward pass reaches, the gradient after the step is the same too, so
  that when the backward pass reaches every parameter, as in the models of the notebook,
  the two steps end with the same parameters and gradients altogether. (The gradient
  of a parameter outside the computation stays \<^verbatim>\<open>None\<close> in the one run and is zeros in
  the other, which leaves the parameter tensors equal.)
\<close>

theorem training_pass_ignores_stale_gradients:
  assumes "wf_trainer s" and "wf_trainer s'"
    and "map p_data (params s) = map p_data (params s')"
    and "lr s = lr s'"
  shows "fst (training_pass F s images labels) = fst (training_pass F s' images labels)
       \<and> (float32_params s \<longrightarrow>
            map p_data (params (snd (training_pass F s images labels)))
              = map p_data (params (snd (training_pass F s' images labels))))
       \<and> (\<forall>i < length (params s). in_graph F i \<longrightarrow>
            params (snd (training_pass F s images labels)) ! i
              = params (snd (training_pass F s' images labels)) ! i)
       \<and> ((\<forall>i < length (params s). in_graph F i) \<longrightarrow>
            params (snd (training_pass F s images labels))
              = params (snd (training_pass F s' images labels)))"
  unfolding training_pass_closed[OF assms(1)] training_pass_closed[OF assms(2)]
  using stepped_cong_in[OF assms(3,4), where F = F and x = images and y = labels]
    stepped_cong_all[OF assms(3,4), where F = F and x = images and y = labels]
    stepped_data_cong[OF assms(1,2) _ assms(3,4), where F = F and x = images and y = labels]
    assms(3)
  by simp

theorem training_pass_ignores_stale_gradients_witness:
  "wf_trainer toy_trainer \<and> wf_trainer toy_trainer_stale \<and> float32_params toy_trainer
   \<and> map p_data (params toy_trainer) = map p_data (params toy_trainer_stale)
   \<and> lr toy_trainer = lr toy_trainer_stale
   \<and> map p_grad (params toy_trainer) = [None, None]
   \<and> map p_grad (params toy_trainer_stale)
       = [Some \<lparr>shape = [2], data = [5, 7]\<rparr>, Some \<lparr>shape = [1], data = [3]\<rparr>]
   \<and> fst (training_pass toy toy_trainer toy_images 0)
       = fst (training_pass toy toy_trainer_stale toy_images 0)
   \<and> map p_data (params (snd (training_pass toy toy_trainer toy_images 0)))
       = map p_data (params (snd (training_pass toy toy_trainer_stale toy_images 0)))
   \<and> map p_data (params (snd (training_pass toy toy_trainer_stale toy_images 0)))
       = [\<lparr>shape = [2], data = [1 / 4, 5 / 4]\<rparr>, \<lparr>shape = [1], data = [5]\<rparr>]
   \<and> in_graph toy 0
   \<and> params (snd (training_pass toy toy_trainer toy_images 0)) ! 0
       = params (snd (training_pass toy toy_trainer_stale toy_images 0)) ! 0"
proof -
  have d: "map p_data (params toy_trainer) = map p_data (params toy_trainer_stale)"
    by (simp add: toy_trainer_def toy_trainer_stale_def)
  have r: "lr toy_trainer = lr toy_trainer_stale"
    by (simp add: toy_trainer_def toy_trainer_stale_def)
  have g: "in_graph toy 0" by (simp add: toy_def toy_in_graph_def)
  have len: "0 < length (params toy_trainer)" by (simp add: toy_trainer_def)
  note T = training_pass_ignores_stale_gradients[OF wf_toy_trainer wf_toy_trainer_stale d r,
      of toy toy_images 0]
  have t1: "fst (training_pass toy toy_trainer toy_images 0)
       = fst (training_pass toy toy_trainer_stale toy_images 0)"
    using T by (rule conjunct1)
  have t2: "map p_data (params (snd (training_pass toy toy_trainer toy_images 0)))
       = map p_data (params (snd (training_pass toy toy_trainer_stale toy_images 0)))"
    using T[THEN conjunct2, THEN conjunct1] float32_toy_trainer by simp
  have t3: "params (snd (training_pass toy toy_trainer toy_images 0)) ! 0
       = params (snd (training_pass toy toy_trainer_stale toy_images 0)) ! 0"
    using T[THEN conjunct2, THEN conjunct2, THEN conjunct1, rule_format, OF len g] .
  have v: "map p_data (params (snd (training_pass toy toy_trainer_stale toy_images 0)))
       = [\<lparr>shape = [2], data = [1 / 4, 5 / 4]\<rparr>, \<lparr>shape = [1], data = [5]\<rparr>]"
    unfolding stale_pass by simp
  have gr: "map p_grad (params toy_trainer) = [None, None]"
    "map p_grad (params toy_trainer_stale)
       = [Some \<lparr>shape = [2], data = [5, 7]\<rparr>, Some \<lparr>shape = [1], data = [3]\<rparr>]"
    by (simp_all add: toy_trainer_def toy_trainer_stale_def)
  show ?thesis
    using wf_toy_trainer wf_toy_trainer_stale float32_toy_trainer d r gr t1 t2 t3 v g
    by (intro conjI)
qed

lemma float32_moves:
  assumes "quantum \<bar>w - d\<bar> / 2 < \<bar>d\<bar>"
  shows "float32 (w - d) \<noteq> w"
proof
  assume "float32 (w - d) = w"
  with float32_error[of "w - d"] have "\<bar>w - (w - d)\<bar> \<le> quantum \<bar>w - d\<bar> / 2" by simp
  with assms show False by simp
qed

lemma float32_sum_moves:
  assumes "quantum \<bar>a + b\<bar> / 2 < \<bar>a\<bar>"
  shows "float32 (a + b) \<noteq> b"
  using float32_moves[of b "- a"] assms by (simp add: add.commute)





lemma fresh_wf: "fresh s \<Longrightarrow> wf_trainer s"
  by (simp add: fresh_def wf_trainer_def wf_param_def list_all_length)

lemma wf_stepped:
  assumes "wf_trainer s"
  shows "wf_trainer \<lparr>params = stepped F s x y, lr = a, calls = c\<rparr>"
proof -
  have "wf_param (stepped F s x y ! i)" if i: "i < length (params s)" for i
  proof (cases "in_graph F i")
    case True
    with i show ?thesis
      by (simp add: nth_stepped_in wf_param_def shape_batch_gradient shape_sgd_update
          length_batch_gradient length_sgd_update)
  next
    case False
    from assms i have wf: "wf_param (params s ! i)" by (simp add: wf_trainer_def list_all_length)
    show ?thesis
    proof (cases "p_grad (params s ! i)")
      case None
      with i False wf show ?thesis by (simp add: nth_stepped_out)
    next
      case (Some g)
      with wf have "shape g = shape (p_data (params s ! i))"
        "length (data g) = length (data (p_data (params s ! i)))" by (simp_all add: wf_param_def)
      with i False Some show ?thesis
        by (simp add: nth_stepped_out wf_param_def shape_sgd_update sgd_update_def zeros_like_def)
    qed
  qed
  then show ?thesis by (simp add: wf_trainer_def list_all_length length_stepped)
qed

lemma no_zero_grad_nth_out:
  assumes "i < length (params s)" "\<not> in_graph F i"
  shows "p_grad (params (snd (training_pass_no_zero_grad F s x y)) ! i) = p_grad (params s ! i)"
proof -
  define ps where "ps = map p_data (params s)"
  define l :: "'b loss" where
    "l = \<lparr>item = criterion_fn F (forward_fn F ps x) y, loss_params = ps,
          loss_images = x, loss_labels = y\<rparr>"
  define s3 where "s3 = s\<lparr>calls := calls s @ [Forward, Criterion]\<rparr>"
  have tp: "training_pass_no_zero_grad F s x y = (item l, optimizer_step (backward F l s3))"
    by (simp add: training_pass_no_zero_grad_def forward_def criterion_def Let_def
        l_def ps_def s3_def)
  show ?thesis
    unfolding tp snd_conv using assms
    by (cases "p_grad (params s ! i)") (simp_all add: optimizer_step_def backward_def s3_def)
qed

lemma map2_map_upt:
  "map2 h (map f [0 ..< n]) (map g [0 ..< n]) = map (\<lambda>k. h (f k) (g k)) [0 ..< n]"
  by (rule nth_equalityI) simp_all

lemma tensor_add_batch_gradients:
  assumes "length (data p) = length (data q)"
  shows "tensor_add (batch_gradient F ps x y i p) (batch_gradient F ps' x' y' i q)
         = \<lparr>shape = shape p,
            data = map (\<lambda>k. float32 (float32 (autograd_fn F ps x y i k)
                                      + float32 (autograd_fn F ps' x' y' i k)))
                     [0 ..< length (data p)]\<rparr>"
  unfolding tensor_add_def batch_gradient_def tensor.select_convs assms
  by (simp only: map2_map_upt)

text \<open>
  Claim C4, as amended. Take a model on which no backward pass has run, two batches, and
  two training steps on them. With the gradients cleared in each step, the gradient of
  a parameter after the second backward pass is the gradient of the second batch. With
  the clearing left out, every entry of it is the sum of the entry of the gradient of
  the first batch and that of the second, rounded to single precision: the gradients
  accumulate instead of the second replacing the first. The parameters after the first
  step are the same in both runs. The two gradients are equal where the gradient of the
  first batch is zero, and they differ as soon as an entry of the gradient of the first
  batch is larger in magnitude than half the distance between neighbouring
  single-precision numbers at the sum. A parameter the backward pass does not reach has
  no gradient in either run.
\<close>

theorem omitted_zero_grad_accumulates:
  fixes F :: "('o, 'y) framework"
  defines "cleared \<equiv> \<lambda>s x1 y1 x2 y2.
             snd (training_pass F (snd (training_pass F s x1 y1)) x2 y2)"
    and "kept \<equiv> \<lambda>s x1 y1 x2 y2.
             snd (training_pass_no_zero_grad F (snd (training_pass_no_zero_grad F s x1 y1)) x2 y2)"
    and "first \<equiv> \<lambda>s x1 y1 i k. float32 (autograd_fn F (map p_data (params s)) x1 y1 i k)"
    and "second \<equiv> \<lambda>s x1 y1 x2 y2 i k.
             float32 (autograd_fn F (map p_data (params (snd (training_pass F s x1 y1)))) x2 y2 i k)"
  assumes "fresh s"
  shows "map p_data (params (snd (training_pass_no_zero_grad F s x1 y1)))
           = map p_data (params (snd (training_pass F s x1 y1)))
       \<and> length (params (cleared s x1 y1 x2 y2)) = length (params s)
       \<and> length (params (kept s x1 y1 x2 y2)) = length (params s)
       \<and> (\<forall>i < length (params s).
            (in_graph F i \<longrightarrow>
               p_grad (params (cleared s x1 y1 x2 y2) ! i)
                 = Some \<lparr>shape = shape (p_data (params s ! i)),
                         data = map (\<lambda>k. second s x1 y1 x2 y2 i k)
                                  [0 ..< length (data (p_data (params s ! i)))]\<rparr>
             \<and> p_grad (params (kept s x1 y1 x2 y2) ! i)
                 = Some \<lparr>shape = shape (p_data (params s ! i)),
                         data = map (\<lambda>k. float32 (first s x1 y1 i k + second s x1 y1 x2 y2 i k))
                                  [0 ..< length (data (p_data (params s ! i)))]\<rparr>
             \<and> ((\<forall>k < length (data (p_data (params s ! i))). first s x1 y1 i k = 0) \<longrightarrow>
                  p_grad (params (kept s x1 y1 x2 y2) ! i)
                    = p_grad (params (cleared s x1 y1 x2 y2) ! i))
             \<and> ((\<exists>k < length (data (p_data (params s ! i))).
                    quantum \<bar>first s x1 y1 i k + second s x1 y1 x2 y2 i k\<bar> / 2
                      < \<bar>first s x1 y1 i k\<bar>) \<longrightarrow>
                  p_grad (params (kept s x1 y1 x2 y2) ! i)
                    \<noteq> p_grad (params (cleared s x1 y1 x2 y2) ! i)))
          \<and> (\<not> in_graph F i \<longrightarrow>
               p_grad (params (cleared s x1 y1 x2 y2) ! i) = None
             \<and> p_grad (params (kept s x1 y1 x2 y2) ! i) = None))"
proof -
  define c1 where "c1 = calls s @ [ZeroGrad, Forward, Criterion, Backward, OptimStep]"
  define k1 where "k1 = calls s @ [Forward, Criterion, Backward, OptimStep]"
  define A1 where "A1 = \<lparr>params = stepped F s x1 y1, lr = lr s, calls = c1\<rparr>"
  define B1 where "B1 = \<lparr>params = stepped F s x1 y1, lr = lr s, calls = k1\<rparr>"
  note wf = fresh_wf[OF assms(5)]
  have a1: "snd (training_pass F s x1 y1) = A1"
    by (simp add: training_pass_closed[OF wf] A1_def c1_def)
  have b1: "snd (training_pass_no_zero_grad F s x1 y1) = B1"
    by (simp add: no_zero_grad_fresh[OF assms(5)] B1_def k1_def)
  have wfA: "wf_trainer A1" unfolding A1_def using wf by (rule wf_stepped)
  have pA: "params A1 = stepped F s x1 y1" and pB: "params B1 = stepped F s x1 y1"
    and lA: "length (params A1) = length (params s)"
    and lB: "length (params B1) = length (params s)"
    by (simp_all add: A1_def B1_def length_stepped)
  have a2: "params (cleared s x1 y1 x2 y2) = stepped F A1 x2 y2"
    unfolding cleared_def a1 by (simp add: training_pass_closed[OF wfA])
  have same: "map p_data (params (snd (training_pass_no_zero_grad F s x1 y1)))
           = map p_data (params (snd (training_pass F s x1 y1)))"
    by (simp add: a1 b1 pA pB)
  have lens: "length (params (cleared s x1 y1 x2 y2)) = length (params s)"
    "length (params (kept s x1 y1 x2 y2)) = length (params s)"
    unfolding kept_def b1 using no_zero_grad_nth(2)[of 0 B1 F x2 y2]
    by (simp_all add: a2 length_stepped lA lB training_pass_no_zero_grad_def forward_def
        criterion_def backward_def optimizer_step_def Let_def)
  have n0: "p_grad (params s ! i) = None" if "i < length (params s)" for i
    using assms(5) that by (simp add: fresh_def list_all_length)
  have inner: "p_grad (params (cleared s x1 y1 x2 y2) ! i)
                 = Some \<lparr>shape = shape (p_data (params s ! i)),
                         data = map (\<lambda>k. second s x1 y1 x2 y2 i k)
                                  [0 ..< length (data (p_data (params s ! i)))]\<rparr>
             \<and> p_grad (params (kept s x1 y1 x2 y2) ! i)
                 = Some \<lparr>shape = shape (p_data (params s ! i)),
                         data = map (\<lambda>k. float32 (first s x1 y1 i k + second s x1 y1 x2 y2 i k))
                                  [0 ..< length (data (p_data (params s ! i)))]\<rparr>
             \<and> ((\<forall>k < length (data (p_data (params s ! i))). first s x1 y1 i k = 0) \<longrightarrow>
                  p_grad (params (kept s x1 y1 x2 y2) ! i)
                    = p_grad (params (cleared s x1 y1 x2 y2) ! i))
             \<and> ((\<exists>k < length (data (p_data (params s ! i))).
                    quantum \<bar>first s x1 y1 i k + second s x1 y1 x2 y2 i k\<bar> / 2
                      < \<bar>first s x1 y1 i k\<bar>) \<longrightarrow>
                  p_grad (params (kept s x1 y1 x2 y2) ! i)
                    \<noteq> p_grad (params (cleared s x1 y1 x2 y2) ! i))"
    if i: "i < length (params s)" and g: "in_graph F i" for i
  proof -
    define w where "w = p_data (params s ! i)"
    define n where "n = length (data w)"
    define g1 where "g1 = batch_gradient F (map p_data (params s)) x1 y1 i w"
    define w1 where "w1 = sgd_update (lr s) w g1"
    define g2 where "g2 = batch_gradient F (map p_data (params A1)) x2 y2 i w1"
    have st: "stepped F s x1 y1 ! i = \<lparr>p_data = w1, p_grad = Some g1\<rparr>"
      using i g by (simp add: nth_stepped_in w_def g1_def w1_def)
    have lw1: "length (data w1) = n" and sw1: "shape w1 = shape w"
      by (simp_all add: w1_def g1_def n_def length_sgd_update length_batch_gradient
          shape_sgd_update)
    have g2v: "g2 = \<lparr>shape = shape w, data = map (\<lambda>k. second s x1 y1 x2 y2 i k) [0 ..< n]\<rparr>"
      unfolding g2_def batch_gradient_def lw1 sw1 second_def a1 ..
    have iA: "i < length (params A1)" using i lA by simp
    have wA: "p_data (params A1 ! i) = w1" by (simp add: pA st)
    have c: "p_grad (params (cleared s x1 y1 x2 y2) ! i) = Some g2"
      unfolding a2 nth_stepped_in[OF iA g] wA g2_def by simp
    have iB: "i < length (params B1)" using i lB by simp
    have wB: "params B1 ! i = \<lparr>p_data = w1, p_grad = Some g1\<rparr>" by (simp add: pB st)
    have "p_grad (params (kept s x1 y1 x2 y2) ! i) = Some (tensor_add g1 g2)"
      unfolding kept_def b1 no_zero_grad_nth(1)[OF iB g] wB g2_def
      by (simp add: accumulate_def pA pB)
    moreover have "tensor_add g1 g2
        = \<lparr>shape = shape w,
           data = map (\<lambda>k. float32 (first s x1 y1 i k + second s x1 y1 x2 y2 i k)) [0 ..< n]\<rparr>"
      unfolding g1_def g2_def first_def second_def a1 n_def
      by (rule tensor_add_batch_gradients) (simp add: lw1 n_def)
    ultimately have k: "p_grad (params (kept s x1 y1 x2 y2) ! i)
        = Some \<lparr>shape = shape w,
                data = map (\<lambda>k. float32 (first s x1 y1 i k + second s x1 y1 x2 y2 i k)) [0 ..< n]\<rparr>"
      by simp
    have eq: "p_grad (params (kept s x1 y1 x2 y2) ! i) = p_grad (params (cleared s x1 y1 x2 y2) ! i)"
      if z: "\<forall>k < n. first s x1 y1 i k = 0"
    proof -
      have "float32 (first s x1 y1 i k + second s x1 y1 x2 y2 i k) = second s x1 y1 x2 y2 i k"
        if "k < n" for k
        using z that by (simp add: second_def float32_idempotent)
      then have "map (\<lambda>k. float32 (first s x1 y1 i k + second s x1 y1 x2 y2 i k)) [0 ..< n]
          = map (\<lambda>k. second s x1 y1 x2 y2 i k) [0 ..< n]"
        by simp
      then show ?thesis unfolding k c g2v by simp
    qed
    have ne: "p_grad (params (kept s x1 y1 x2 y2) ! i) \<noteq> p_grad (params (cleared s x1 y1 x2 y2) ! i)"
      if "\<exists>k < n. quantum \<bar>first s x1 y1 i k + second s x1 y1 x2 y2 i k\<bar> / 2
                     < \<bar>first s x1 y1 i k\<bar>"
    proof
      assume e: "p_grad (params (kept s x1 y1 x2 y2) ! i) = p_grad (params (cleared s x1 y1 x2 y2) ! i)"
      from that obtain k where kn: "k < n"
        and big: "quantum \<bar>first s x1 y1 i k + second s x1 y1 x2 y2 i k\<bar> / 2 < \<bar>first s x1 y1 i k\<bar>"
        by blast
      from e have "map (\<lambda>k. float32 (first s x1 y1 i k + second s x1 y1 x2 y2 i k)) [0 ..< n]
          = map (\<lambda>k. second s x1 y1 x2 y2 i k) [0 ..< n]"
        unfolding k c g2v by simp
      then have "map (\<lambda>k. float32 (first s x1 y1 i k + second s x1 y1 x2 y2 i k)) [0 ..< n] ! k
          = map (\<lambda>k. second s x1 y1 x2 y2 i k) [0 ..< n] ! k" by (simp only:)
      with kn have "float32 (first s x1 y1 i k + second s x1 y1 x2 y2 i k) = second s x1 y1 x2 y2 i k"
        by simp
      with float32_sum_moves[OF big] show False by simp
    qed
    show ?thesis
      using c[unfolded g2v] k eq ne unfolding w_def n_def by blast
  qed
  have outer: "p_grad (params (cleared s x1 y1 x2 y2) ! i) = None
             \<and> p_grad (params (kept s x1 y1 x2 y2) ! i) = None"
    if i: "i < length (params s)" and g: "\<not> in_graph F i" for i
  proof -
    have st: "stepped F s x1 y1 ! i = params s ! i"
      using i g n0[OF i] by (simp add: nth_stepped_out)
    have iA: "i < length (params A1)" using i lA by simp
    have iB: "i < length (params B1)" using i lB by simp
    have "p_grad (params A1 ! i) = None" using n0[OF i] by (simp add: pA st)
    then have c: "p_grad (params (cleared s x1 y1 x2 y2) ! i) = None"
      unfolding a2 nth_stepped_out[OF iA g] by simp
    have "p_grad (params (kept s x1 y1 x2 y2) ! i) = p_grad (params B1 ! i)"
      unfolding kept_def b1 by (rule no_zero_grad_nth_out[OF iB g])
    with n0[OF i] have "p_grad (params (kept s x1 y1 x2 y2) ! i) = None"
      by (simp add: pB st)
    with c show ?thesis by simp
  qed
  show ?thesis using same lens inner outer by blast
qed

theorem omitted_zero_grad_accumulates_witness:
  "fresh toy_trainer \<and> in_graph toy 0 \<and> \<not> in_graph toy 1
   \<and> float32 (autograd_fn toy (map p_data (params toy_trainer)) toy_images 0 0 0) = 24
   \<and> quantum \<bar>24 + 12\<bar> / 2 < \<bar>24 :: real\<bar>
   \<and> map p_grad (params (snd (training_pass toy (snd (training_pass toy toy_trainer toy_images 0))
                                 toy_images 0)))
       = [Some \<lparr>shape = [2], data = [12, 12]\<rparr>, None]
   \<and> map p_grad (params (snd (training_pass_no_zero_grad toy
                                 (snd (training_pass_no_zero_grad toy toy_trainer toy_images 0))
                                 toy_images 0)))
       = [Some \<lparr>shape = [2], data = [24 + 12, 24 + 12]\<rparr>, None]
   \<and> p_grad (params (snd (training_pass_no_zero_grad toy
                            (snd (training_pass_no_zero_grad toy toy_trainer toy_images 0))
                            toy_images 0)) ! 0)
       \<noteq> p_grad (params (snd (training_pass toy (snd (training_pass toy toy_trainer toy_images 0))
                                 toy_images 0)) ! 0)"
proof -
  have g: "in_graph toy 0" "\<not> in_graph toy 1" by (simp_all add: toy_def toy_in_graph_def)
  have len: "0 < length (params toy_trainer)" by (simp add: toy_trainer_def)
  have a: "float32 (autograd_fn toy (map p_data (params toy_trainer)) toy_images 0 0 0) = 24"
    by (simp add: toy_defs float32_values)
  have b: "float32 (autograd_fn toy
             (map p_data (params (snd (training_pass toy toy_trainer toy_images 0))))
             toy_images 0 0 0) = 12"
    unfolding first_pass
    by (simp add: after_first_def toy_def toy_forward_def toy_autograd_def toy_images_def
        float32_values)
  have q: "quantum \<bar>24 + 12\<bar> / 2 < \<bar>24 :: real\<bar>"
    using exponent32_eq[of 5 36] by (simp add: quantum_def power_int_minus)
  have k: "0 < length (data (p_data (params toy_trainer ! 0)))" by (simp add: toy_trainer_def)
  note T = omitted_zero_grad_accumulates[OF fresh_toy, of toy toy_images 0 toy_images 0]
  note T0 = T[THEN conjunct2, THEN conjunct2, THEN conjunct2, rule_format, OF len,
      THEN conjunct1, rule_format, OF g(1)]
  have "\<exists>k<length (data (p_data (params toy_trainer ! 0))).
          quantum \<bar>float32 (autograd_fn toy (map p_data (params toy_trainer)) toy_images 0 0 k)
                   + float32 (autograd_fn toy
                       (map p_data (params (snd (training_pass toy toy_trainer toy_images 0))))
                       toy_images 0 0 k)\<bar> / 2
            < \<bar>float32 (autograd_fn toy (map p_data (params toy_trainer)) toy_images 0 0 k)\<bar>"
    using k q unfolding a[symmetric] b[symmetric] by blast
  from T0[THEN conjunct2, THEN conjunct2, THEN conjunct2, rule_format, OF this]
  have ne: "p_grad (params (snd (training_pass_no_zero_grad toy
                            (snd (training_pass_no_zero_grad toy toy_trainer toy_images 0))
                            toy_images 0)) ! 0)
       \<noteq> p_grad (params (snd (training_pass toy (snd (training_pass toy toy_trainer toy_images 0))
                                 toy_images 0)) ! 0)" .
  have c: "map p_grad (params (snd (training_pass toy (snd (training_pass toy toy_trainer toy_images 0))
                                 toy_images 0)))
       = [Some \<lparr>shape = [2], data = [12, 12]\<rparr>, None]"
    unfolding first_pass snd_conv by (rule second_pass_grads)
  have kk: "map p_grad (params (snd (training_pass_no_zero_grad toy
                                 (snd (training_pass_no_zero_grad toy toy_trainer toy_images 0))
                                 toy_images 0)))
       = [Some \<lparr>shape = [2], data = [24 + 12, 24 + 12]\<rparr>, None]"
    unfolding first_pass_no_zero_grad snd_conv second_pass_no_zero_grad_grads by simp
  show ?thesis using fresh_toy g a q c kk ne by (intro conjI)
qed

text \<open>
  The claim as it was stated, that the two gradients differ, fails where the gradient
  of the first batch is zero (the first input is blank) and where it is too small for
  single precision (the first input is faint: its gradient \<open>3/2\<^sup>3\<^sup>9\<close> is absorbed by the
  gradient 24 of the second batch).
\<close>

theorem omitted_zero_grad_counterexample:
  "fresh toy_trainer
   \<and> map p_grad (params (snd (training_pass_no_zero_grad toy
                              (snd (training_pass_no_zero_grad toy toy_trainer toy_blank 1))
                              toy_images 0)))
     = map p_grad (params (snd (training_pass toy
                              (snd (training_pass toy toy_trainer toy_blank 1))
                              toy_images 0)))
   \<and> p_grad (params (snd (training_pass toy toy_trainer toy_faint 0)) ! 0)
     = Some \<lparr>shape = [2], data = [3 / 2 ^ 39, 3 / 2 ^ 39]\<rparr>
   \<and> map p_grad (params (snd (training_pass_no_zero_grad toy
                              (snd (training_pass_no_zero_grad toy toy_trainer toy_faint 0))
                              toy_images 0)))
     = [Some \<lparr>shape = [2], data = [24, 24]\<rparr>, None]
   \<and> map p_grad (params (snd (training_pass toy
                              (snd (training_pass toy toy_trainer toy_faint 0))
                              toy_images 0)))
     = [Some \<lparr>shape = [2], data = [24, 24]\<rparr>, None]"
  unfolding blank_pass blank_pass_no_zero_grad faint_pass faint_pass_no_zero_grad snd_conv
  by (simp add: fresh_def pass_defs toy_def toy_forward_def toy_criterion_def toy_autograd_def
      toy_in_graph_def toy_images_def toy_trainer_def float32_simps)

lemma train_batches_sum:
  "train_batches F s r bs = Inr (r', s') \<Longrightarrow>
     r' = r + sum_list (batch_losses F s bs) \<and> length (batch_losses F s bs) = length bs"
proof (induction bs arbitrary: s r)
  case Nil
  then show ?case by simp
next
  case (Cons b bs)
  obtain images labels where b: "b = (images, labels)" by (cases b)
  from Cons.prems b obtain flat where fl: "flatten_images images = Inr flat"
    by (auto split: sum.splits)
  obtain l s1 where tp: "training_pass F s flat labels = (l, s1)"
    by (cases "training_pass F s flat labels")
  from Cons.prems b fl tp have "train_batches F s1 (r + l) bs = Inr (r', s')" by simp
  from Cons.IH[OF this] show ?case using b fl tp by simp
qed

lemma train_batches_total:
  "list_all flattenable bs \<Longrightarrow> \<exists>r' s'. train_batches F s r bs = Inr (r', s')"
proof (induction bs arbitrary: s r)
  case Nil
  then show ?case by simp
next
  case (Cons b bs)
  obtain images labels where b: "b = (images, labels)" by (cases b)
  from Cons.prems b obtain flat where fl: "flatten_images images = Inr flat"
    by (cases "flatten_images images") (auto simp: flattenable_def)
  obtain l s1 where tp: "training_pass F s flat labels = (l, s1)"
    by (cases "training_pass F s flat labels")
  from Cons.prems have "list_all flattenable bs" by simp
  from Cons.IH[OF this, of s1 "r + l"] show ?case using b fl tp by simp
qed

lemma train_epoch_empty: "train_epoch F s [] = Inl ZeroDivisionError"
  by (simp add: train_epoch_def)

text \<open>
  Claim C5. In every epoch of a run, the training loss printed at the end of the epoch is
  the sum of the loss values of the batches of that epoch, each computed in its own
  training pass, divided by the number of batches of the loader; one such value per
  epoch is all the run prints.
\<close>

theorem training_loss_reported:
  assumes "list_all (\<lambda>trainloader. trainloader \<noteq> [] \<and> list_all flattenable trainloader) epochs"
  shows "\<exists>s'. train F s epochs = Inr (map TrainingLoss (epoch_averages F s epochs), s')
             \<and> length (epoch_averages F s epochs) = length epochs"
  using assms
proof (induction epochs arbitrary: s)
  case Nil
  then show ?case by simp
next
  case (Cons bs rest)
  then have ne: "bs \<noteq> []" and fl: "list_all flattenable bs"
    and rest: "list_all (\<lambda>bs. bs \<noteq> [] \<and> list_all flattenable bs) rest" by simp_all
  from train_batches_total[OF fl] obtain r s1
    where tb: "train_batches F s 0 bs = Inr (r, s1)" by blast
  from train_batches_sum[OF tb] have r: "r = sum_list (batch_losses F s bs)" by simp
  from tb r ne have
    ep: "train_epoch F s bs = Inr ([TrainingLoss (sum_list (batch_losses F s bs) / real (length bs))], s1)"
    by (simp add: train_epoch_def)
  from Cons.IH[OF rest, of s1] obtain s2 where
    "train F s1 rest = Inr (map TrainingLoss (epoch_averages F s1 rest), s2)"
    "length (epoch_averages F s1 rest) = length rest" by blast
  with ep tb r show ?case by simp
qed

theorem training_loss_reported_witness:
  "list_all (\<lambda>trainloader. trainloader \<noteq> [] \<and> list_all flattenable trainloader)
     [[(toy_images, 0::real), (toy_blank, 1)]]
   \<and> (\<exists>s'. train toy toy_trainer [[(toy_images, 0), (toy_blank, 1)]]
              = Inr ([TrainingLoss (37 / 2)], s'))"
proof -
  have fl: "list_all (\<lambda>trainloader. trainloader \<noteq> [] \<and> list_all flattenable trainloader)
     [[(toy_images, 0::real), (toy_blank, 1)]]"
    by (simp add: flattenable_def flatten_toy_images flatten_toy_blank)
  from training_loss_reported[OF fl, of toy toy_trainer] obtain s' where
    "train toy toy_trainer [[(toy_images, 0), (toy_blank, 1)]]
       = Inr (map TrainingLoss (epoch_averages toy toy_trainer [[(toy_images, 0), (toy_blank, 1)]]), s')"
    by blast
  then have "train toy toy_trainer [[(toy_images, 0), (toy_blank, 1)]] = Inr ([TrainingLoss (37 / 2)], s')"
    unfolding toy_epoch_average by (simp only: list.map)
  then show ?thesis using fl by blast
qed

section \<open>Properties of saving and loading\<close>

lemma hidden_entries_snoc:
  "hidden_entries w b (ls @ [l]) =
     hidden_entries w b ls @ [(HiddenWeight (length ls), w l), (HiddenBias (length ls), b l)]"
  by (simp add: hidden_entries_def)

lemma hidden_entries_Nil: "hidden_entries w b [] = []"
  by (simp add: hidden_entries_def)

lemma map_of_hidden_entries:
  "map_of (hidden_entries w b ls) k =
     (case k of
        HiddenWeight j \<Rightarrow> if j < length ls then Some (w (ls ! j)) else None
      | HiddenBias j \<Rightarrow> if j < length ls then Some (b (ls ! j)) else None
      | _ \<Rightarrow> None)"
proof (induction ls rule: rev_induct)
  case Nil
  then show ?case by (simp add: hidden_entries_Nil split: pname.splits)
next
  case (snoc l ls)
  then show ?case
    by (cases k) (auto simp: hidden_entries_snoc map_add_def nth_append split: option.splits)
qed

lemma set_keys_hidden_entries:
  "set (map fst (hidden_entries w b ls)) = HiddenWeight ` {..< length ls} \<union> HiddenBias ` {..< length ls}"
  by (induction ls rule: rev_induct)
    (auto simp: hidden_entries_Nil hidden_entries_snoc lessThan_Suc)

lemma distinct_hidden_entries: "distinct (map fst (hidden_entries w b ls))"
proof (induction ls rule: rev_induct)
  case Nil
  then show ?case by (simp add: hidden_entries_Nil)
next
  case (snoc l ls)
  have "HiddenWeight (length ls) \<notin> set (map fst (hidden_entries w b ls))"
    "HiddenBias (length ls) \<notin> set (map fst (hidden_entries w b ls))"
    unfolding set_keys_hidden_entries by auto
  with snoc show ?case by (simp add: hidden_entries_snoc)
qed

lemma shapes_of_hidden_entries:
  "shapes_of (hidden_entries w b ls) = hidden_entries (\<lambda>l. shape (w l)) (\<lambda>l. shape (b l)) ls"
  by (induction ls rule: rev_induct)
    (simp_all add: hidden_entries_Nil hidden_entries_snoc shapes_of_def)

lemma map_of_model_state_dict:
  "map_of (model_state_dict m) k =
     (case k of
        HiddenWeight j \<Rightarrow> if j < length (net_hidden m) then Some (weight (net_hidden m ! j)) else None
      | HiddenBias j \<Rightarrow> if j < length (net_hidden m) then Some (bias (net_hidden m ! j)) else None
      | OutputWeight \<Rightarrow> Some (weight (net_output m))
      | OutputBias \<Rightarrow> Some (bias (net_output m)))"
  by (cases k) (simp_all add: model_state_dict_def map_add_def map_of_hidden_entries)

lemma distinct_with_output:
  "distinct (map fst (hidden_entries w b ls @ [(OutputWeight, x), (OutputBias, y)]))"
  using distinct_hidden_entries[of w b ls] set_keys_hidden_entries[of w b ls] by auto

lemma distinct_model_state_dict: "distinct (map fst (model_state_dict m))"
  by (simp only: model_state_dict_def distinct_with_output)

lemma length_net_hidden: "length (net_hidden (Network init i o' hs)) = length hs"
  by (simp add: Network_def)

lemma nth_net_hidden:
  "k < length hs \<Longrightarrow>
     net_hidden (Network init i o' hs) ! k =
       Linear init (HiddenWeight k) (HiddenBias k) ((i # hs) ! k) (hs ! k)"
  by (simp add: Network_def)

lemma hidden_entries_cong:
  assumes "length ls = length ls'"
    and "\<And>k. k < length ls \<Longrightarrow> w (ls ! k) = w' (ls' ! k) \<and> b (ls ! k) = b' (ls' ! k)"
  shows "hidden_entries w b ls = hidden_entries w' b' ls'"
proof -
  have "map2 (\<lambda>k l. [(HiddenWeight k, w l), (HiddenBias k, b l)]) [0 ..< length ls] ls
      = map2 (\<lambda>k l. [(HiddenWeight k, w' l), (HiddenBias k, b' l)]) [0 ..< length ls'] ls'"
    by (rule nth_equalityI) (simp_all add: assms)
  then show ?thesis by (simp add: hidden_entries_def)
qed

lemma shapes_of_append: "shapes_of (xs @ ys) = shapes_of xs @ shapes_of ys"
  by (simp add: shapes_of_def)

lemma shapes_of_Network:
  "shapes_of (model_state_dict (Network init i o' hs)) = expected_shapes i o' hs"
proof -
  have h: "hidden_entries (\<lambda>l. shape (weight l)) (\<lambda>l. shape (bias l)) (net_hidden (Network init i o' hs))
        = hidden_entries (\<lambda>(a, b). [b, a]) (\<lambda>(a, b). [b]) (zip (i # hs) hs)"
    by (rule hidden_entries_cong) (simp_all add: Network_def Linear_def new_tensor_def)
  have o: "shapes_of [(OutputWeight, weight (net_output (Network init i o' hs))),
                      (OutputBias, bias (net_output (Network init i o' hs)))]
        = [(OutputWeight, [o', last (i # hs)]), (OutputBias, [o'])]"
    by (simp add: shapes_of_def Network_def Linear_def new_tensor_def)
  show ?thesis
    unfolding model_state_dict_def expected_shapes_def shapes_of_append
      shapes_of_hidden_entries h o ..
qed

lemma keys_shapes_of: "map fst (shapes_of sd) = map fst sd"
  by (simp add: shapes_of_def case_prod_unfold)

lemma map_of_shapes_of: "map_of (shapes_of sd) k = map_option shape (map_of sd k)"
  by (induction sd) (auto simp: shapes_of_def)

lemma missing_keys_self: "missing_keys own own = []"
  by (auto simp: missing_keys_def filter_empty_conv map_of_eq_None_iff)

lemma unexpected_keys_self: "unexpected_keys own own = []"
  by (auto simp: unexpected_keys_def filter_empty_conv map_of_eq_None_iff)

lemma size_mismatches_self:
  assumes "distinct (map fst own)"
  shows "size_mismatches own own = []"
proof -
  have "map_of own k = Some sh" if "(k, sh) \<in> set own" for k sh
    using assms that by simp
  then show ?thesis
    by (auto simp: size_mismatches_def)
qed

lemma load_state_dict_same_shapes:
  assumes "shapes_of sd = shapes_of (model_state_dict m)"
  shows "load_state_dict m sd =
     Inr \<lparr>net_hidden =
            map2 (\<lambda>k l. load_linear sd (HiddenWeight k) (HiddenBias k) l)
              [0 ..< length (net_hidden m)] (net_hidden m),
          net_output = load_linear sd OutputWeight OutputBias (net_output m)\<rparr>"
proof -
  have "distinct (map fst (shapes_of (model_state_dict m)))"
    by (simp only: keys_shapes_of distinct_model_state_dict)
  then show ?thesis
    by (simp add: load_state_dict_def assms missing_keys_self unexpected_keys_self
        size_mismatches_self)
qed

lemma load_roundtrip:
  "load_state_dict (Network init' i o' hs) (model_state_dict (Network init i o' hs))
     = Inr (Network init i o' hs)"
proof -
  let ?M = "Network init' i o' hs" and ?m = "Network init i o' hs"
  let ?sd = "model_state_dict ?m"
  have sh: "shapes_of ?sd = shapes_of (model_state_dict ?M)"
    by (simp only: shapes_of_Network)
  have hid: "map2 (\<lambda>k l. load_linear ?sd (HiddenWeight k) (HiddenBias k) l)
              [0 ..< length (net_hidden ?M)] (net_hidden ?M) = net_hidden ?m"
  proof (rule nth_equalityI)
    show "length (map2 (\<lambda>k l. load_linear ?sd (HiddenWeight k) (HiddenBias k) l)
              [0 ..< length (net_hidden ?M)] (net_hidden ?M)) = length (net_hidden ?m)"
      by (simp add: length_net_hidden)
  next
    fix k assume "k < length (map2 (\<lambda>k l. load_linear ?sd (HiddenWeight k) (HiddenBias k) l)
              [0 ..< length (net_hidden ?M)] (net_hidden ?M))"
    then have k: "k < length hs" by (simp add: length_net_hidden)
    then show "map2 (\<lambda>k l. load_linear ?sd (HiddenWeight k) (HiddenBias k) l)
              [0 ..< length (net_hidden ?M)] (net_hidden ?M) ! k = net_hidden ?m ! k"
      by (simp add: length_net_hidden nth_net_hidden load_linear_def copy_from_def
          map_of_model_state_dict Linear_def new_tensor_def)
  qed
  have out: "load_linear ?sd OutputWeight OutputBias (net_output ?M) = net_output ?m"
    by (simp add: load_linear_def copy_from_def map_of_model_state_dict Network_def
        Linear_def new_tensor_def)
  show ?thesis
    unfolding load_state_dict_same_shapes[OF sh] hid out by simp
qed

lemma map_of_expected_shapes:
  "map_of (expected_shapes i o' hs) k =
     (case k of
        HiddenWeight j \<Rightarrow> if j < length hs then Some [hs ! j, (i # hs) ! j] else None
      | HiddenBias j \<Rightarrow> if j < length hs then Some [hs ! j] else None
      | OutputWeight \<Rightarrow> Some [o', last (i # hs)]
      | OutputBias \<Rightarrow> Some [o'])"
  by (cases k) (simp_all add: expected_shapes_def map_add_def map_of_hidden_entries)

lemma in_size_mismatches:
  assumes "(k, sh) \<in> set own" "map_of saved k = Some sh'" "sh' \<noteq> sh"
  shows "(k, sh', sh) \<in> set (size_mismatches own saved)"
  using assms by (force simp: size_mismatches_def)

lemma widths_differ_rejected:
  assumes "hs' \<noteq> hs"
  shows "missing_keys (expected_shapes i o' hs') (expected_shapes i o' hs) \<noteq> []
       \<or> unexpected_keys (expected_shapes i o' hs') (expected_shapes i o' hs) \<noteq> []
       \<or> size_mismatches (expected_shapes i o' hs') (expected_shapes i o' hs) \<noteq> []"
proof -
  let ?own = "expected_shapes i o' hs'" and ?saved = "expected_shapes i o' hs"
  have "\<exists>j<length hs. hs' ! j \<noteq> hs ! j" if "length hs' = length hs"
    using assms that by (auto simp: list_eq_iff_nth_eq)
  then consider "length hs < length hs'" | "length hs' < length hs"
    | j where "length hs' = length hs" "j < length hs" "hs' ! j \<noteq> hs ! j"
    by (cases "length hs" "length hs'" rule: linorder_cases) auto
  then show ?thesis
  proof cases
    case 1
    have "map_of ?own (HiddenBias (length hs)) = Some [hs' ! length hs]"
      using 1 by (simp add: map_of_expected_shapes)
    then have "HiddenBias (length hs) \<in> set (map fst ?own)"
      by (metis map_of_eq_None_iff option.distinct(1) set_map)
    moreover have "map_of ?saved (HiddenBias (length hs)) = None"
      by (simp add: map_of_expected_shapes)
    ultimately have "HiddenBias (length hs) \<in> set (missing_keys ?own ?saved)"
      by (simp add: missing_keys_def)
    then show ?thesis by auto
  next
    case 2
    have "map_of ?saved (HiddenBias (length hs')) = Some [hs ! length hs']"
      using 2 by (simp add: map_of_expected_shapes)
    then have "HiddenBias (length hs') \<in> set (map fst ?saved)"
      by (metis map_of_eq_None_iff option.distinct(1) set_map)
    moreover have "map_of ?own (HiddenBias (length hs')) = None"
      by (simp add: map_of_expected_shapes)
    ultimately have "HiddenBias (length hs') \<in> set (unexpected_keys ?own ?saved)"
      by (simp add: unexpected_keys_def)
    then show ?thesis by auto
  next
    case 3
    have "map_of ?own (HiddenBias j) = Some [hs' ! j]"
      using 3 by (simp add: map_of_expected_shapes)
    then have own: "(HiddenBias j, [hs' ! j]) \<in> set ?own"
      by (rule map_of_SomeD)
    have "map_of ?saved (HiddenBias j) = Some [hs ! j]"
      using 3 by (simp add: map_of_expected_shapes)
    from in_size_mismatches[OF own this] 3(3)
    have "(HiddenBias j, [hs ! j], [hs' ! j]) \<in> set (size_mismatches ?own ?saved)" by simp
    then show ?thesis by auto
  qed
qed

lemma load_state_dict_error:
  "load_state_dict m sd = Inl e \<Longrightarrow>
     e = LoadStateDictError
           (missing_keys (shapes_of (model_state_dict m)) (shapes_of sd))
           (unexpected_keys (shapes_of (model_state_dict m)) (shapes_of sd))
           (size_mismatches (shapes_of (model_state_dict m)) (shapes_of sd))"
  by (simp add: load_state_dict_def Let_def split: if_splits)

lemma affected_named:
  assumes "map_of own k \<noteq> map_of saved k"
  shows "k \<in> set (missing_keys own saved) \<union> set (unexpected_keys own saved)
           \<union> fst ` set (size_mismatches own saved)"
proof (cases "map_of own k")
  case None
  with assms obtain sh' where "map_of saved k = Some sh'" by (cases "map_of saved k") auto
  then have "k \<in> set (map fst saved)"
    by (metis map_of_eq_None_iff option.distinct(1) set_map)
  with None show ?thesis by (simp add: unexpected_keys_def)
next
  case (Some sh)
  then have own: "(k, sh) \<in> set own" by (rule map_of_SomeD)
  then have key: "k \<in> set (map fst own)" by force
  show ?thesis
  proof (cases "map_of saved k")
    case None
    with key show ?thesis by (simp add: missing_keys_def)
  next
    case (Some sh')
    with assms \<open>map_of own k = Some sh\<close> have "sh' \<noteq> sh" by simp
    from in_size_mismatches[OF own Some this] show ?thesis by force
  qed
qed

lemma missing_key_rejected:
  assumes "k \<in> set (map fst (model_state_dict m))" "map_of sd k = None"
  shows "isl (load_state_dict m sd)"
proof -
  have "k \<in> set (missing_keys (shapes_of (model_state_dict m)) (shapes_of sd))"
    using assms by (simp add: missing_keys_def keys_shapes_of map_of_shapes_of)
  then have "missing_keys (shapes_of (model_state_dict m)) (shapes_of sd) \<noteq> []" by auto
  then show ?thesis by (simp add: load_state_dict_def Let_def)
qed

lemma no_mismatch_same_shape:
  assumes "size_mismatches own saved = []" "map_of own k = Some sh" "map_of saved k = Some sh'"
  shows "sh' = sh"
proof (rule ccontr)
  assume "sh' \<noteq> sh"
  from in_size_mismatches[OF map_of_SomeD[OF assms(2)] assms(3) this] assms(1)
  show False by simp
qed

lemma loaded_state_dict:
  assumes "load_state_dict m sd = Inr m'"
  shows "map_of (model_state_dict m') = map_of sd"
proof
  fix k
  let ?own = "shapes_of (model_state_dict m)" and ?saved = "shapes_of sd"
  from assms have mk: "missing_keys ?own ?saved = []" and uk: "unexpected_keys ?own ?saved = []"
    and sm: "size_mismatches ?own ?saved = []"
    and m': "m' = \<lparr>net_hidden =
            map2 (\<lambda>k l. load_linear sd (HiddenWeight k) (HiddenBias k) l)
              [0 ..< length (net_hidden m)] (net_hidden m),
          net_output = load_linear sd OutputWeight OutputBias (net_output m)\<rparr>"
    by (auto simp: load_state_dict_def Let_def split: if_splits)
  have present: "map_of sd k \<noteq> None" if "map_of (model_state_dict m) k \<noteq> None" for k
  proof
    assume n: "map_of sd k = None"
    from that have "k \<in> set (map fst (model_state_dict m))"
      by (metis map_of_eq_None_iff set_map)
    with n have "k \<in> set (missing_keys ?own ?saved)"
      by (simp add: missing_keys_def keys_shapes_of map_of_shapes_of)
    with mk show False by simp
  qed
  have absent: "map_of sd k = None" if "map_of (model_state_dict m) k = None" for k
  proof (rule ccontr)
    assume "map_of sd k \<noteq> None"
    then have "k \<in> set (map fst sd)" by (metis map_of_eq_None_iff set_map)
    with that have "k \<in> set (unexpected_keys ?own ?saved)"
      by (simp add: unexpected_keys_def keys_shapes_of map_of_shapes_of)
    with uk show False by simp
  qed
  have copy: "copy_from sd k t = t'" if "map_of (model_state_dict m) k = Some t" "map_of sd k = Some t'"
    for k t t'
  proof -
    have "shape t' = shape t"
      using no_mismatch_same_shape[OF sm, of k "shape t" "shape t'"] that
      by (simp add: map_of_shapes_of)
    with that(2) show ?thesis by (simp add: copy_from_def)
  qed
  have len: "length (net_hidden m') = length (net_hidden m)" by (simp add: m')
  show "map_of (model_state_dict m') k = map_of sd k"
  proof (cases k)
    case (HiddenWeight j)
    show ?thesis
    proof (cases "j < length (net_hidden m)")
      case True
      then have own: "map_of (model_state_dict m) k = Some (weight (net_hidden m ! j))"
        by (simp add: HiddenWeight map_of_model_state_dict)
      with present[of k] obtain t' where t': "map_of sd k = Some t'" by auto
      from copy[OF own t'] True show ?thesis
        by (simp add: HiddenWeight map_of_model_state_dict len t'[unfolded HiddenWeight] m'
            load_linear_def)
    next
      case False
      then have "map_of (model_state_dict m) k = None"
        by (simp add: HiddenWeight map_of_model_state_dict)
      from absent[OF this] False show ?thesis
        by (simp add: HiddenWeight map_of_model_state_dict len)
    qed
  next
    case (HiddenBias j)
    show ?thesis
    proof (cases "j < length (net_hidden m)")
      case True
      then have own: "map_of (model_state_dict m) k = Some (bias (net_hidden m ! j))"
        by (simp add: HiddenBias map_of_model_state_dict)
      with present[of k] obtain t' where t': "map_of sd k = Some t'" by auto
      from copy[OF own t'] True show ?thesis
        by (simp add: HiddenBias map_of_model_state_dict len t'[unfolded HiddenBias] m'
            load_linear_def)
    next
      case False
      then have "map_of (model_state_dict m) k = None"
        by (simp add: HiddenBias map_of_model_state_dict)
      from absent[OF this] False show ?thesis
        by (simp add: HiddenBias map_of_model_state_dict len)
    qed
  next
    case OutputWeight
    have own: "map_of (model_state_dict m) k = Some (weight (net_output m))"
      by (simp add: OutputWeight map_of_model_state_dict)
    with present[of k] obtain t' where t': "map_of sd k = Some t'" by auto
    from copy[OF own t'] show ?thesis
      by (simp add: OutputWeight map_of_model_state_dict t'[unfolded OutputWeight] m'
          load_linear_def)
  next
    case OutputBias
    have own: "map_of (model_state_dict m) k = Some (bias (net_output m))"
      by (simp add: OutputBias map_of_model_state_dict)
    with present[of k] obtain t' where t': "map_of sd k = Some t'" by auto
    from copy[OF own t'] show ?thesis
      by (simp add: OutputBias map_of_model_state_dict t'[unfolded OutputBias] m'
          load_linear_def)
  qed
qed

lemma unexpected_key_rejected:
  assumes "k \<in> set (map fst sd)" "map_of (model_state_dict m) k = None"
  shows "isl (load_state_dict m sd)"
proof -
  have "k \<in> set (unexpected_keys (shapes_of (model_state_dict m)) (shapes_of sd))"
    using assms by (simp add: unexpected_keys_def keys_shapes_of map_of_shapes_of)
  then have "unexpected_keys (shapes_of (model_state_dict m)) (shapes_of sd) \<noteq> []" by auto
  then show ?thesis by (simp add: load_state_dict_def Let_def)
qed

lemma widths_differ_load_fails:
  assumes "hidden' \<noteq> hidden"
  shows "isl (load_state_dict (Network init' n_in n_out hidden')
                (model_state_dict (Network init n_in n_out hidden)))"
  using widths_differ_rejected[OF assms, of n_in n_out]
  by (auto simp: load_state_dict_def Let_def shapes_of_Network)

lemma expected_trained: "expected_shapes 784 10 [512, 256, 128] =
  [(HiddenWeight 0, [512, 784]), (HiddenBias 0, [512]),
   (HiddenWeight 1, [256, 512]), (HiddenBias 1, [256]),
   (HiddenWeight 2, [128, 256]), (HiddenBias 2, [128]),
   (OutputWeight, [10, 128]), (OutputBias, [10])]"
  by (simp add: expected_shapes_def hidden_entries_def upt_rec)

lemma expected_other: "expected_shapes 784 10 [400, 200, 100] =
  [(HiddenWeight 0, [400, 784]), (HiddenBias 0, [400]),
   (HiddenWeight 1, [200, 400]), (HiddenBias 1, [200]),
   (HiddenWeight 2, [100, 200]), (HiddenBias 2, [100]),
   (OutputWeight, [10, 100]), (OutputBias, [10])]"
  by (simp add: expected_shapes_def hidden_entries_def upt_rec)

lemma torch_save_at: "torch_save obj filepath fs filepath = Some [obj]"
  by (simp add: torch_save_def write_object_def open_wb_def)



lemma load_after_save: "torch_load filepath (torch_save obj filepath fs) = Inr obj"
  by (simp add: torch_load_def torch_save_at)

lemma hidden_layers_make_checkpoint:
  "hidden_layers (make_checkpoint (Network init i o' hs)) = hs"
proof -
  have "map out_features (net_hidden (Network init i o' hs)) = hs"
    by (rule nth_equalityI) (simp_all add: Network_def Linear_def)
  then show ?thesis by (simp add: make_checkpoint_def)
qed

lemma load_checkpoint_saved:
  "load_checkpoint init (torch_save (SavedCheckpoint (make_checkpoint (Network init0 i o' hs)))
                           filepath fs) filepath
   = load_state_dict (Network init 784 10 hs) (model_state_dict (Network init0 i o' hs))"
  unfolding load_checkpoint_def load_after_save
  by (simp add: hidden_layers_make_checkpoint) (simp add: make_checkpoint_def)

lemma expected_small_784: "expected_shapes 784 10 [2] =
  [(HiddenWeight 0, [2, 784]), (HiddenBias 0, [2]), (OutputWeight, [10, 2]), (OutputBias, [10])]"
  by (simp add: expected_shapes_def hidden_entries_def)

lemma expected_small_3: "expected_shapes 3 10 [2] =
  [(HiddenWeight 0, [2, 3]), (HiddenBias 0, [2]), (OutputWeight, [10, 2]), (OutputBias, [10])]"
  by (simp add: expected_shapes_def hidden_entries_def)

lemma expected_small_out3: "expected_shapes 784 3 [2] =
  [(HiddenWeight 0, [2, 784]), (HiddenBias 0, [2]), (OutputWeight, [3, 2]), (OutputBias, [3])]"
  by (simp add: expected_shapes_def hidden_entries_def)

text \<open>
  Claim C2. Loading a state dict into a model fails whenever the hidden-layer widths of
  the model differ from those of the model the state dict was taken from, whenever a
  parameter name of the model is missing from the state dict, and whenever the state dict
  has a name the model lacks. The error it raises names every parameter on which model
  and state dict disagree. Where loading succeeds, every parameter of the model is the
  saved tensor of its name, shape and entries as saved: nothing is cut off or padded.
\<close>

theorem load_state_dict_rejects_mismatch:
  "(hidden' \<noteq> hidden \<longrightarrow>
      isl (load_state_dict (Network init' n_in n_out hidden')
             (model_state_dict (Network init n_in n_out hidden))))
   \<and> (\<forall>k \<in> set (map fst (model_state_dict m)). map_of sd k = None \<longrightarrow> isl (load_state_dict m sd))
   \<and> (\<forall>k \<in> set (map fst sd). map_of (model_state_dict m) k = None \<longrightarrow> isl (load_state_dict m sd))
   \<and> (\<forall>e. load_state_dict m sd = Inl e \<longrightarrow>
        (\<exists>missing unexpected mismatch.
            e = LoadStateDictError missing unexpected mismatch
          \<and> (\<forall>k. map_of (shapes_of (model_state_dict m)) k \<noteq> map_of (shapes_of sd) k \<longrightarrow>
                 k \<in> set missing \<union> set unexpected \<union> fst ` set mismatch)))
   \<and> (\<forall>m'. load_state_dict m sd = Inr m' \<longrightarrow> map_of (model_state_dict m') = map_of sd)"
proof (intro conjI)
  show "hidden' \<noteq> hidden \<longrightarrow>
      isl (load_state_dict (Network init' n_in n_out hidden')
             (model_state_dict (Network init n_in n_out hidden)))"
    using widths_differ_load_fails by blast
  show "\<forall>k \<in> set (map fst (model_state_dict m)). map_of sd k = None \<longrightarrow> isl (load_state_dict m sd)"
    using missing_key_rejected by blast
  show "\<forall>k \<in> set (map fst sd). map_of (model_state_dict m) k = None \<longrightarrow> isl (load_state_dict m sd)"
    using unexpected_key_rejected by blast
  show "\<forall>e. load_state_dict m sd = Inl e \<longrightarrow>
        (\<exists>missing unexpected mismatch.
            e = LoadStateDictError missing unexpected mismatch
          \<and> (\<forall>k. map_of (shapes_of (model_state_dict m)) k \<noteq> map_of (shapes_of sd) k \<longrightarrow>
                 k \<in> set missing \<union> set unexpected \<union> fst ` set mismatch))"
    using load_state_dict_error affected_named by blast
  show "\<forall>m'. load_state_dict m sd = Inr m' \<longrightarrow> map_of (model_state_dict m') = map_of sd"
    using loaded_state_dict by blast
qed

text \<open>
  The run of the notebook: the state dict of the trained model with widths
  \<open>[512, 256, 128]\<close> is loaded into a model with widths \<open>[400, 200, 100]\<close>, and the
  error lists the seven parameters the notebook prints.
\<close>

theorem load_state_dict_rejects_mismatch_witness:
  "[400, 200, 100] \<noteq> [512, 256, 128 :: nat]
   \<and> isl (load_state_dict (Network zero_init 784 10 [400, 200, 100])
            (model_state_dict (Network index_init 784 10 [512, 256, 128])))
   \<and> load_state_dict (Network zero_init 784 10 [400, 200, 100])
        (model_state_dict (Network index_init 784 10 [512, 256, 128]))
      = Inl (LoadStateDictError [] []
          [(HiddenWeight 0, [512, 784], [400, 784]), (HiddenBias 0, [512], [400]),
           (HiddenWeight 1, [256, 512], [200, 400]), (HiddenBias 1, [256], [200]),
           (HiddenWeight 2, [128, 256], [100, 200]), (HiddenBias 2, [128], [100]),
           (OutputWeight, [10, 128], [10, 100])])"
proof -
  have ne: "[400, 200, 100] \<noteq> [512, 256, 128 :: nat]" by simp
  note T = load_state_dict_rejects_mismatch[of "[400, 200, 100]" "[512, 256, 128]"
      zero_init 784 10 index_init, THEN conjunct1, rule_format, OF ne]
  have "load_state_dict (Network zero_init 784 10 [400, 200, 100])
        (model_state_dict (Network index_init 784 10 [512, 256, 128]))
      = Inl (LoadStateDictError [] []
          [(HiddenWeight 0, [512, 784], [400, 784]), (HiddenBias 0, [512], [400]),
           (HiddenWeight 1, [256, 512], [200, 400]), (HiddenBias 1, [256], [200]),
           (HiddenWeight 2, [128, 256], [100, 200]), (HiddenBias 2, [128], [100]),
           (OutputWeight, [10, 128], [10, 100])])"
    unfolding load_state_dict_def shapes_of_Network expected_trained expected_other
    by (simp add: missing_keys_def unexpected_keys_def size_mismatches_def)
  with ne T show ?thesis by blast
qed

text \<open>
  Claim C1, as amended. For every sequence of hidden-layer widths and every assignment of
  parameter values of a model with input size 784 and output size 10, which are the sizes
  the checkpoint records as literals, building the checkpoint from the model, saving it
  and reconstructing a model from the file with \<^verbatim>\<open>load_checkpoint\<close> yields the original
  model: the same architecture and the same parameters. The checkpoint declares that
  architecture.
\<close>

theorem checkpoint_roundtrip:
  "load_checkpoint init' (torch_save (SavedCheckpoint (make_checkpoint (Network init 784 10 hidden)))
                            filepath fs) filepath
     = Inr (Network init 784 10 hidden)
   \<and> input_size (make_checkpoint (Network init 784 10 hidden)) = 784
   \<and> output_size (make_checkpoint (Network init 784 10 hidden)) = 10
   \<and> hidden_layers (make_checkpoint (Network init 784 10 hidden)) = hidden"
proof -
  have "load_checkpoint init' (torch_save (SavedCheckpoint (make_checkpoint (Network init 784 10 hidden)))
                            filepath fs) filepath
     = load_state_dict (Network init' 784 10 hidden) (model_state_dict (Network init 784 10 hidden))"
    unfolding load_checkpoint_def load_after_save
    by (simp add: hidden_layers_make_checkpoint) (simp add: make_checkpoint_def)
  then show ?thesis
    by (simp add: load_roundtrip hidden_layers_make_checkpoint) (simp add: make_checkpoint_def)
qed

theorem checkpoint_roundtrip_witness:
  "load_checkpoint zero_init
     (torch_save (SavedCheckpoint (make_checkpoint (Network index_init 784 10 [128, 64])))
        ''checkpoint.pth'' no_files) ''checkpoint.pth''
   = Inr (Network index_init 784 10 [128, 64])"
  using checkpoint_roundtrip[of zero_init index_init "[128, 64]" "''checkpoint.pth''" no_files]
  by (rule conjunct1)

text \<open>
  The claim as it was stated, for every input size: a model with three inputs is saved
  with the declared input size 784, and reconstructing it fails on the first weight.
\<close>

theorem checkpoint_roundtrip_counterexample:
  "load_checkpoint zero_init
     (torch_save (SavedCheckpoint (make_checkpoint (Network index_init 3 10 [2])))
        ''checkpoint.pth'' no_files) ''checkpoint.pth''
   = Inl (LoadStateDictError [] [] [(HiddenWeight 0, [2, 3], [2, 784])])"
  unfolding load_checkpoint_saved load_state_dict_def shapes_of_Network
    expected_small_784 expected_small_3
  by (simp add: missing_keys_def unexpected_keys_def size_mismatches_def)

text \<open>
  Claim C8, as amended. Every checkpoint the save path builds from a model with input
  size 784 and output size 10 satisfies the invariant of the data model: the declared
  sizes and widths match the shape of every tensor of the stored state dict. And
  \<^verbatim>\<open>load_checkpoint\<close> succeeds on every checkpoint that satisfies the invariant, with the
  stored tensors as the parameters of the model it returns.
\<close>

theorem saved_checkpoint_consistent:
  fixes init init' :: "pname \<Rightarrow> nat \<Rightarrow> 'a"
  shows "consistent (make_checkpoint (Network init 784 10 hidden))
   \<and> (\<forall>c :: 'a checkpoint. consistent c \<longrightarrow>
        (\<exists>m'. load_checkpoint init' (torch_save (SavedCheckpoint c) filepath fs) filepath = Inr m'
              \<and> map_of (model_state_dict m') = map_of (state_dict c)))"
proof (intro conjI allI impI)
  show "consistent (make_checkpoint (Network init 784 10 hidden))"
    unfolding consistent_def hidden_layers_make_checkpoint
    by (simp add: make_checkpoint_def shapes_of_Network)
next
  fix c :: "'a checkpoint"
  assume "consistent c"
  then have "shapes_of (state_dict c)
      = shapes_of (model_state_dict (Network init' (input_size c) (output_size c) (hidden_layers c)))"
    by (simp add: consistent_def shapes_of_Network)
  from load_state_dict_same_shapes[OF this] obtain m' where
    m': "load_state_dict (Network init' (input_size c) (output_size c) (hidden_layers c))
           (state_dict c) = Inr m'" by blast
  have "load_checkpoint init' (torch_save (SavedCheckpoint c) filepath fs) filepath = Inr m'"
    unfolding load_checkpoint_def load_after_save using m' by simp
  with loaded_state_dict[OF m']
  show "\<exists>m'. load_checkpoint init' (torch_save (SavedCheckpoint c) filepath fs) filepath = Inr m'
              \<and> map_of (model_state_dict m') = map_of (state_dict c)" by blast
qed

theorem saved_checkpoint_consistent_witness:
  "consistent (make_checkpoint (Network index_init 784 10 [2]))
   \<and> (\<exists>m'. load_checkpoint zero_init
               (torch_save (SavedCheckpoint (make_checkpoint (Network index_init 784 10 [2])))
                  ''checkpoint.pth'' no_files) ''checkpoint.pth'' = Inr m')"
proof -
  note T = saved_checkpoint_consistent[of index_init "[2]" zero_init "''checkpoint.pth''" no_files]
  from T have c: "consistent (make_checkpoint (Network index_init 784 10 [2]))" by (rule conjunct1)
  from T[THEN conjunct2, rule_format, OF c] c show ?thesis by blast
qed

text \<open>
  The claim as it was stated, for every model: the checkpoint of a model with three
  outputs declares the output size 10, which its output layer does not have, and
  \<^verbatim>\<open>load_checkpoint\<close> fails on it.
\<close>

theorem saved_checkpoint_consistent_counterexample:
  "\<not> consistent (make_checkpoint (Network index_init 784 3 [2]))
   \<and> load_checkpoint zero_init
       (torch_save (SavedCheckpoint (make_checkpoint (Network index_init 784 3 [2])))
          ''checkpoint.pth'' no_files) ''checkpoint.pth''
     = Inl (LoadStateDictError [] [] [(OutputWeight, [3, 2], [10, 2]), (OutputBias, [3], [10])])"
proof -
  have a: "\<not> consistent (make_checkpoint (Network index_init 784 3 [2]))"
    unfolding consistent_def hidden_layers_make_checkpoint
    by (simp add: make_checkpoint_def shapes_of_Network expected_small_784 expected_small_out3)
  have b: "load_checkpoint zero_init
       (torch_save (SavedCheckpoint (make_checkpoint (Network index_init 784 3 [2])))
          ''checkpoint.pth'' no_files) ''checkpoint.pth''
     = Inl (LoadStateDictError [] [] [(OutputWeight, [3, 2], [10, 2]), (OutputBias, [3], [10])])"
    unfolding load_checkpoint_saved load_state_dict_def shapes_of_Network
      expected_small_784 expected_small_out3
    by (simp add: missing_keys_def unexpected_keys_def size_mismatches_def)
  from a b show ?thesis by blast
qed



end
